theory Spec2Isabelle
  imports Main "HOL-Library.AList"
begin

section \<open>Values shared by the client and the server model\<close>

text \<open>
  The errors the code distinguishes with \<open>instanceof\<close>, each carrying its message.
  \<open>Error\<close> stands for every other exception (transport failures and the like).
\<close>

datatype error =
    AuthorizationError string
  | NotFoundError string
  | ValidationError string
  | Error string

fun message :: "error \<Rightarrow> string" where
  "message (AuthorizationError m) = m"
| "message (NotFoundError m) = m"
| "message (ValidationError m) = m"
| "message (Error m) = m"

fun isAuthorizationError :: "error \<Rightarrow> bool" where
  "isAuthorizationError (AuthorizationError m) = True"
| "isAuthorizationError e = False"

fun isNotFoundError :: "error \<Rightarrow> bool" where
  "isNotFoundError (NotFoundError m) = True"
| "isNotFoundError e = False"

text \<open>
  JavaScript truthiness of a value of type \<open>string | null | undefined\<close>: \<open>None\<close> is
  null or undefined, and the empty string is falsy as well.
\<close>

definition truthy :: "string option \<Rightarrow> bool" where
  "truthy v = (case v of None \<Rightarrow> False | Some s \<Rightarrow> s \<noteq> [])"

section \<open>The server-side Comment model: resolve and unresolve\<close>

record user =
  id :: string
  name :: string

text \<open>
  The fields of the Comment model that the two methods read or write. The columns
  \<open>resolvedById\<close> and \<open>parentCommentId\<close> are null for an unresolved and for a top-level
  comment, whatever the declared type, and both methods test them for truthiness.
\<close>

record comment =
  createdById :: string
  resolvedBy :: "user option"
  resolvedById :: "string option"
  documentId :: string
  parentCommentId :: "string option"

text \<open>
  \<open>this.save(options)\<close> belongs to the ORM; it is the parameter \<open>save\<close>, applied to the
  comment as the method has mutated it. A successful call returns the mutated comment
  together with what \<open>save\<close> returned; a \<open>throw\<close> is the \<open>Inl\<close> branch and leaves the
  comment as it was.
\<close>

definition resolve :: "(comment \<Rightarrow> 'r) \<Rightarrow> user \<Rightarrow> comment \<Rightarrow> error + comment \<times> 'r" where
  "resolve save resolvedByUser this =
     (if truthy (resolvedById this) then Inl (ValidationError ''Comment is already resolved'')
      else if truthy (parentCommentId this) then Inl (ValidationError ''Cannot resolve a reply'')
      else
        let this1 = this\<lparr>resolvedById := Some (user.id resolvedByUser)\<rparr>;
            this2 = this1\<lparr>resolvedBy := Some resolvedByUser\<rparr>
        in Inr (this2, save this2))"

definition unresolve :: "(comment \<Rightarrow> 'r) \<Rightarrow> comment \<Rightarrow> error + comment \<times> 'r" where
  "unresolve save this =
     (if \<not> truthy (resolvedById this) then Inl (ValidationError ''Comment is not resolved'')
      else
        let this1 = this\<lparr>resolvedById := None\<rparr>;
            this2 = this1\<lparr>resolvedBy := None\<rparr>
        in Inr (this2, save this2))"

section \<open>Entity stores\<close>

text \<open>
  Modelled from the spec: the Entity Store classes (\<open>~/stores\<close>) are not part of the
  sources at hand; only their callers are. The spec gives the contract: an indexed mapping
  from identifier to entity that never holds two records with the same identifier, with
  \<open>get(id)\<close> returning the record or nothing, \<open>add\<close> an upsert that overwrites the fields
  present in the incoming record and leaves the others untouched, \<open>remove(id)\<close>, and
  \<open>removeAll(fields)\<close> removing every record that matches. A store is an association list
  in insertion order; the key of an entry is the record's \<open>id\<close>.
\<close>

type_synonym 'a store = "(string \<times> 'a) list"

text \<open>
  Modelled from the spec: the invariant of an Entity Store, which never holds two records
  with the same identifier.
\<close>

definition wf_store :: "'a store \<Rightarrow> bool" where
  "wf_store st = distinct (map fst st)"

text \<open>
  Modelled from the spec: \<open>get(id)\<close> of an Entity Store, the record with that identifier
  or nothing.
\<close>

definition get :: "'a store \<Rightarrow> string \<Rightarrow> 'a option" where
  "get st k = map_of st k"

text \<open>
  Modelled from the spec: \<open>add(partialRecord)\<close> of an Entity Store, an upsert keyed by
  the identifier. \<open>merge\<close> overwrites in the record already held the fields present in
  the incoming one; a new identifier is stored as it comes, after the records held.
\<close>

definition add :: "('a \<Rightarrow> 'a \<Rightarrow> 'a) \<Rightarrow> string \<Rightarrow> 'a \<Rightarrow> 'a store \<Rightarrow> 'a store" where
  "add merge k incoming st =
     AList.update k (case map_of st k of None \<Rightarrow> incoming | Some old \<Rightarrow> merge old incoming) st"

text \<open>Modelled from the spec: \<open>remove(id)\<close> of an Entity Store.\<close>

definition remove :: "string \<Rightarrow> 'a store \<Rightarrow> 'a store" where
  "remove k st = AList.delete k st"

text \<open>
  Modelled from the spec: \<open>removeAll(predicateFields)\<close> of an Entity Store, which removes
  every record whose fields match.
\<close>

definition removeAll :: "('a \<Rightarrow> bool) \<Rightarrow> 'a store \<Rightarrow> 'a store" where
  "removeAll matches st = filter (\<lambda>(k, v). \<not> matches v) st"

section \<open>Entity records held by the client\<close>

datatype navigationNode = NavigationNode (nodeId: string) (nodeTitle: string) (children: "navigationNode list")

record document =
  title :: string
  updatedAt :: string
  collectionId :: "string option"
  publishedAt :: "string option"
  deletedAt :: "string option"

text \<open>
  A collection arrives as \<open>PartialWithId<Collection>\<close>: every field but the id may be
  missing (\<open>None\<close> is undefined), which is why the handlers read it through \<open>?.\<close>.
\<close>

record collection =
  updatedAt :: "string option"
  documents :: "navigationNode list option"

record membership =
  userId :: string
  collectionId :: string

text \<open>
  The handlers read \<open>event.documentId!\<close>: the field is asserted to be present.
\<close>

record userMembership =
  userId :: string
  documentId :: string

record policy =
  abilities :: "(string \<times> bool) list"

text \<open>
  Comments, groups, pins, stars and subscriptions are only ever passed through to their
  stores; their payload is a property map.
\<close>

type_synonym entity = "string \<rightharpoonup> string"

definition replaceRecord :: "'a \<Rightarrow> 'a \<Rightarrow> 'a" where
  "replaceRecord old incoming = incoming"

definition mergeEntity :: "entity \<Rightarrow> entity \<Rightarrow> entity" where
  "mergeEntity old incoming = old ++ incoming"

definition mergeCollection :: "collection \<Rightarrow> collection \<Rightarrow> collection" where
  "mergeCollection old incoming =
     \<lparr> collection.updatedAt =
         (case collection.updatedAt incoming of None \<Rightarrow> collection.updatedAt old | Some u \<Rightarrow> Some u),
       documents =
         (case collection.documents incoming of
            None \<Rightarrow> collection.documents old
          | Some ns \<Rightarrow> Some ns) \<rparr>"

text \<open>
  Modelled from the spec: \<open>documents.inCollection(collectionId)\<close> of the document store is
  not in the sources; the spec speaks of the documents contained in the collection, so it
  is the cached documents whose collection reference is that collection.
\<close>

definition inCollection :: "string \<Rightarrow> document store \<Rightarrow> document store" where
  "inCollection cid docs = filter (\<lambda>(k, doc). document.collectionId doc = Some cid) docs"

section \<open>Client state and environment\<close>

record socket =
  authenticated :: bool

datatype toast = ToastError string | ToastSuccess string

datatype request = FetchDocument string | FetchCollectionDocuments string

text \<open>
  Everything the handlers read or write: the socket reference (null when torn down), the
  notices shown to the user, the log of refetch requests sent to the server, and the
  stores.
\<close>

record state =
  socket :: "socket option"
  toasts :: "toast list"
  requests :: "request list"
  documents :: "document store"
  collections :: "collection store"
  memberships :: "membership store"
  userMemberships :: "userMembership store"
  policies :: "policy store"
  comments :: "entity store"
  groups :: "entity store"
  pins :: "entity store"
  stars :: "entity store"
  subscriptions :: "entity store"

text \<open>
  The surroundings of the handlers: the id of the signed-in user, the clock read by
  \<open>new Date().toISOString()\<close>, the server's answer to a forced refetch (it may depend on
  every request sent before), and the \<open>childDocuments\<close> getter of the Document model,
  which is not in the sources and is taken as a parameter giving the children's ids.
\<close>

record env =
  currentUserId :: "string option"
  now :: string
  documentInfo :: "request list \<Rightarrow> string \<Rightarrow> error + document"
  collectionDocuments :: "request list \<Rightarrow> string \<Rightarrow> error + navigationNode list"
  childDocuments :: "document store \<Rightarrow> string \<Rightarrow> string list"

text \<open>
  Modelled from the spec: \<open>fetch(id, {force})\<close> of the document store, which is not in the
  sources. With \<open>force\<close> the request always goes to the server; the record it returns is
  added to the store under the requested id and handed back, and a failure is raised to
  the caller with the store untouched.
\<close>

definition documents_fetch :: "env \<Rightarrow> string \<Rightarrow> state \<Rightarrow> (error + document) \<times> state" where
  "documents_fetch e k st =
     (let st1 = st\<lparr>requests := requests st @ [FetchDocument k]\<rparr>
      in case documentInfo e (requests st) k of
           Inl err \<Rightarrow> (Inl err, st1)
         | Inr doc \<Rightarrow> (Inr doc, st1\<lparr>documents := add replaceRecord k doc (documents st1)\<rparr>))"

text \<open>
  Modelled from the spec: \<open>fetchDocuments({force})\<close> of the Collection model, which is not
  in the sources: the forced refetch of the collection's document list. On success the
  list replaces the one held by the cached collection; a failure is raised to the caller.
\<close>

definition fetchDocuments :: "env \<Rightarrow> string \<Rightarrow> collection \<Rightarrow> state \<Rightarrow> (error + unit) \<times> state" where
  "fetchDocuments e k this st =
     (let st1 = st\<lparr>requests := requests st @ [FetchCollectionDocuments k]\<rparr>
      in case collectionDocuments e (requests st) k of
           Inl err \<Rightarrow> (Inl err, st1)
         | Inr nodes \<Rightarrow>
             (Inr (), st1\<lparr>collections :=
                AList.update k (this\<lparr>collection.documents := Some nodes\<rparr>) (collections st1)\<rparr>))"

section \<open>The connection handshake\<close>

text \<open>
  A handler returns the exception that escaped it, if any, and the state it left behind.
\<close>

type_synonym outcome = "error option \<times> state"

definition on_authenticated :: "state \<Rightarrow> outcome" where
  "on_authenticated st =
     (None, case socket st of
              None \<Rightarrow> st
            | Some s \<Rightarrow> st\<lparr>socket := Some (s\<lparr>authenticated := True\<rparr>)\<rparr>)"

definition on_unauthorized :: "error \<Rightarrow> state \<Rightarrow> outcome" where
  "on_unauthorized err st =
     (let st1 = (case socket st of
                   None \<Rightarrow> st
                 | Some s \<Rightarrow> st\<lparr>socket := Some (s\<lparr>authenticated := False\<rparr>)\<rparr>);
          st2 = st1\<lparr>toasts := toasts st1 @ [ToastError (message err)]\<rparr>
      in (Some err, st2))"

section \<open>The entities batch handler\<close>

record descriptor =
  id :: string
  updatedAt :: "string option"

record entitiesEvent =
  documentIds :: "descriptor list option"
  collectionIds :: "descriptor list option"
  fetchIfMissing :: bool

text \<open>
  The collection descriptors of an event as the loops read them: an undefined
  \<open>collectionIds\<close> holds none.
\<close>

definition collectionDescriptors :: "entitiesEvent \<Rightarrow> descriptor list" where
  "collectionDescriptors event = (case collectionIds event of None \<Rightarrow> [] | Some cs \<Rightarrow> cs)"

text \<open>
  What one pass through a loop body ends with: \<open>Continue\<close> goes on with the next
  descriptor (the end of the body or a \<open>continue\<close>), \<open>Return\<close> leaves the handler.
\<close>

datatype 'a flow = Continue 'a | Return 'a

fun unflow :: "'a flow \<Rightarrow> 'a" where
  "unflow (Continue x) = x"
| "unflow (Return x) = x"

text \<open>
  The block under the comment "if the title changed then we need to update the collection
  also". \<open>doc\<close> is the handler's variable \<open>document\<close> at that point: the fetched record,
  or still the cached one (or undefined) when the refetch failed. \<open>find\<close> with the matcher
  \<open>{id: document.collectionId}\<close> returns the first descriptor with that id, and none when
  the document has no collection reference.
\<close>

definition titleChanged :: "document option \<Rightarrow> string option \<Rightarrow> entitiesEvent \<Rightarrow> entitiesEvent" where
  "titleChanged doc previousTitle event =
     (case doc of
        None \<Rightarrow> event
      | Some d \<Rightarrow>
          if previousTitle \<noteq> Some (title d) then
            let ids = (case collectionIds event of None \<Rightarrow> [] | Some cs \<Rightarrow> cs);
                existing = find (\<lambda>c. Some (descriptor.id c) = document.collectionId d) ids
            in (case document.collectionId d of
                  Some cid \<Rightarrow>
                    if existing = None \<and> truthy (Some cid)
                    then event\<lparr>collectionIds :=
                           Some (ids @ [\<lparr>descriptor.id = cid, updatedAt = None\<rparr>])\<rparr>
                    else event\<lparr>collectionIds := Some ids\<rparr>
                | None \<Rightarrow> event\<lparr>collectionIds := Some ids\<rparr>)
          else event)"

definition processDocumentDescriptor ::
    "env \<Rightarrow> descriptor \<Rightarrow> entitiesEvent \<times> state \<Rightarrow> (entitiesEvent \<times> state) flow" where
  "processDocumentDescriptor e documentDescriptor es =
     (let event = fst es;
          st = snd es;
          documentId = descriptor.id documentDescriptor;
          doc = get (documents st) documentId;
          previousTitle = map_option title doc
      in if map_option document.updatedAt doc = descriptor.updatedAt documentDescriptor
         then Continue (event, st)
         else if doc = None \<and> \<not> fetchIfMissing event
         then Continue (event, st)
         else (case documents_fetch e documentId st of
                 (Inr fetched, st1) \<Rightarrow>
                   Continue (titleChanged (Some fetched) previousTitle event, st1)
               | (Inl err, st1) \<Rightarrow>
                   if isAuthorizationError err \<or> isNotFoundError err
                   then Return (event, st1\<lparr>documents := remove documentId (documents st1)\<rparr>)
                   else Continue (titleChanged doc previousTitle event, st1)))"

fun documentLoop ::
    "env \<Rightarrow> descriptor list \<Rightarrow> entitiesEvent \<times> state \<Rightarrow> (entitiesEvent \<times> state) flow" where
  "documentLoop e [] es = Continue es"
| "documentLoop e (d # ds) es =
     (case processDocumentDescriptor e d es of
        Return es1 \<Rightarrow> Return es1
      | Continue es1 \<Rightarrow> documentLoop e ds es1)"

text \<open>
  \<open>!collection?.documents?.length\<close>: true when the collection is not cached, when it has
  no document list, and when the list is empty.
\<close>

definition noDocuments :: "collection option \<Rightarrow> bool" where
  "noDocuments c =
     (case c of
        None \<Rightarrow> True
      | Some col \<Rightarrow> (case collection.documents col of None \<Rightarrow> True | Some ns \<Rightarrow> length ns = 0))"

definition processCollectionDescriptor :: "env \<Rightarrow> bool \<Rightarrow> descriptor \<Rightarrow> state \<Rightarrow> state flow" where
  "processCollectionDescriptor e fetchMissing collectionDescriptor st =
     (let cid = descriptor.id collectionDescriptor;
          col = get (collections st) cid
      in if Option.bind col collection.updatedAt = descriptor.updatedAt collectionDescriptor
         then Continue st
         else if noDocuments col \<and> \<not> fetchMissing
         then Continue st
         else (case col of
                 None \<Rightarrow> Continue st
               | Some c \<Rightarrow>
                   (case fetchDocuments e cid c st of
                      (Inr u, st1) \<Rightarrow> Continue st1
                    | (Inl err, st1) \<Rightarrow>
                        if isAuthorizationError err \<or> isNotFoundError err
                        then Return (st1\<lparr>
                               memberships :=
                                 removeAll (\<lambda>m. membership.collectionId m = cid) (memberships st1),
                               collections := remove cid (collections st1)\<rparr>)
                        else Continue st1)))"

fun collectionLoop :: "env \<Rightarrow> bool \<Rightarrow> descriptor list \<Rightarrow> state \<Rightarrow> state flow" where
  "collectionLoop e fetchMissing [] st = Continue st"
| "collectionLoop e fetchMissing (d # ds) st =
     (case processCollectionDescriptor e fetchMissing d st of
        Return st1 \<Rightarrow> Return st1
      | Continue st1 \<Rightarrow> collectionLoop e fetchMissing ds st1)"

text \<open>
  The handler: the document descriptors first, then the collection descriptors of the
  event as the first loop left it. The result is the event as mutated and the state.
\<close>

definition entities :: "env \<Rightarrow> entitiesEvent \<Rightarrow> state \<Rightarrow> entitiesEvent \<times> state" where
  "entities e event st =
     (case (case documentIds event of
              None \<Rightarrow> Continue (event, st)
            | Some ds \<Rightarrow> documentLoop e ds (event, st)) of
        Return es1 \<Rightarrow> es1
      | Continue (event1, st1) \<Rightarrow>
          (case collectionIds event1 of
             None \<Rightarrow> (event1, st1)
           | Some cs \<Rightarrow> (event1, unflow (collectionLoop e (fetchIfMissing event1) cs st1))))"

definition on_entities :: "env \<Rightarrow> entitiesEvent \<Rightarrow> state \<Rightarrow> outcome" where
  "on_entities e event st = (None, snd (entities e event st))"

section \<open>The other handlers\<close>

text \<open>\<open>document.childDocuments.forEach((childDocument) => policies.remove(childDocument.id))\<close>\<close>

definition removeChildPolicies :: "env \<Rightarrow> string \<Rightarrow> state \<Rightarrow> state" where
  "removeChildPolicies e docId st =
     (case get (documents st) docId of
        None \<Rightarrow> st
      | Some doc \<Rightarrow>
          fold (\<lambda>childId s. s\<lparr>policies := remove childId (policies s)\<rparr>)
               (childDocuments e (documents st) docId) st)"

text \<open>\<open>policy && policy.abilities.read === false\<close>\<close>

definition readDenied :: "policy option \<Rightarrow> bool" where
  "readDenied p =
     (case p of None \<Rightarrow> False | Some pol \<Rightarrow> map_of (abilities pol) ''read'' = Some False)"

definition on_documents_remove_user :: "env \<Rightarrow> string \<times> userMembership \<Rightarrow> state \<Rightarrow> outcome" where
  "on_documents_remove_user e event st =
     (let m = snd event;
          st1 = st\<lparr>userMemberships := remove (fst event) (userMemberships st)\<rparr>;
          st2 = (if Some (userMembership.userId m) = currentUserId e
                 then removeChildPolicies e (userMembership.documentId m) st1
                 else st1);
          pol = get (policies st2) (userMembership.documentId m)
      in (None, if readDenied pol
                then st2\<lparr>documents := remove (userMembership.documentId m) (documents st2)\<rparr>
                else st2))"

definition on_collections_remove_user :: "string \<times> membership \<Rightarrow> state \<Rightarrow> outcome" where
  "on_collections_remove_user event st =
     (let m = snd event;
          st1 = st\<lparr>memberships := remove (fst event) (memberships st)\<rparr>;
          pol = get (policies st1) (membership.collectionId m)
      in (None, if readDenied pol
                then st1\<lparr>collections := remove (membership.collectionId m) (collections st1)\<rparr>
                else st1))"

definition on_comments_create :: "string \<times> entity \<Rightarrow> state \<Rightarrow> outcome" where
  "on_comments_create event st =
     (None, st\<lparr>comments := add mergeEntity (fst event) (snd event) (comments st)\<rparr>)"

definition on_comments_delete :: "string \<Rightarrow> state \<Rightarrow> outcome" where
  "on_comments_delete modelId st = (None, st\<lparr>comments := remove modelId (comments st)\<rparr>)"

definition on_groups_create :: "string \<times> entity \<Rightarrow> state \<Rightarrow> outcome" where
  "on_groups_create event st =
     (None, st\<lparr>groups := add mergeEntity (fst event) (snd event) (groups st)\<rparr>)"

definition on_groups_delete :: "string \<Rightarrow> state \<Rightarrow> outcome" where
  "on_groups_delete modelId st = (None, st\<lparr>groups := remove modelId (groups st)\<rparr>)"

definition on_pins_create :: "string \<times> entity \<Rightarrow> state \<Rightarrow> outcome" where
  "on_pins_create event st =
     (None, st\<lparr>pins := add mergeEntity (fst event) (snd event) (pins st)\<rparr>)"

definition on_pins_delete :: "string \<Rightarrow> state \<Rightarrow> outcome" where
  "on_pins_delete modelId st = (None, st\<lparr>pins := remove modelId (pins st)\<rparr>)"

definition on_stars_create :: "string \<times> entity \<Rightarrow> state \<Rightarrow> outcome" where
  "on_stars_create event st =
     (None, st\<lparr>stars := add mergeEntity (fst event) (snd event) (stars st)\<rparr>)"

definition on_stars_delete :: "string \<Rightarrow> state \<Rightarrow> outcome" where
  "on_stars_delete modelId st = (None, st\<lparr>stars := remove modelId (stars st)\<rparr>)"

definition on_subscriptions_create :: "string \<times> entity \<Rightarrow> state \<Rightarrow> outcome" where
  "on_subscriptions_create event st =
     (None, st\<lparr>subscriptions := add mergeEntity (fst event) (snd event) (subscriptions st)\<rparr>)"

definition on_subscriptions_delete :: "string \<Rightarrow> state \<Rightarrow> outcome" where
  "on_subscriptions_delete modelId st =
     (None, st\<lparr>subscriptions := remove modelId (subscriptions st)\<rparr>)"

definition on_collections_create :: "string \<times> collection \<Rightarrow> state \<Rightarrow> outcome" where
  "on_collections_create event st =
     (None, st\<lparr>collections := add mergeCollection (fst event) (snd event) (collections st)\<rparr>)"

text \<open>
  One pass of the \<open>forEach\<close> in the \<open>collections.delete\<close> handler: \<open>doc\<close> is the cached
  record itself, so the assignment changes the entry of the store in place.
\<close>

definition detachOrDelete :: "string \<Rightarrow> string \<times> document \<Rightarrow> state \<Rightarrow> state" where
  "detachOrDelete deletedAtNow entry st =
     (let docId = fst entry;
          doc = snd entry;
          doc1 = (if \<not> truthy (publishedAt doc)
                  then doc\<lparr>document.collectionId := None\<rparr>
                  else doc\<lparr>deletedAt := Some deletedAtNow\<rparr>)
      in st\<lparr>documents := AList.update docId doc1 (documents st),
            policies := remove docId (policies st)\<rparr>)"

definition on_collections_delete :: "env \<Rightarrow> string \<Rightarrow> state \<Rightarrow> outcome" where
  "on_collections_delete e modelId st =
     (let cid = modelId;
          deletedAtNow = now e;
          deletedDocuments = inCollection cid (documents st);
          st1 = fold (detachOrDelete deletedAtNow) deletedDocuments st;
          st2 = st1\<lparr>memberships :=
                      removeAll (\<lambda>m. membership.collectionId m = cid) (memberships st1)\<rparr>
      in (None, st2\<lparr>collections := remove cid (collections st2)\<rparr>))"

section \<open>Example data\<close>

text \<open>
  A small client state and a server used to run the handlers on concrete input: the
  server returns a retitled document for \<open>d1\<close>, refuses \<open>d2\<close>, and times out on every
  other document; it returns the document list of \<open>c1\<close>, no longer knows \<open>c2\<close>, and times
  out on every other collection.
\<close>

definition exampleEnv :: env where
  "exampleEnv =
     \<lparr> currentUserId = Some ''u1'',
       now = ''2024-05-01T10:00:00.000Z'',
       documentInfo = (\<lambda>log k.
         if k = ''d1'' then
           Inr \<lparr> title = ''New title'', document.updatedAt = ''t1'',
                 document.collectionId = Some ''c1'', publishedAt = None, deletedAt = None \<rparr>
         else if k = ''d2'' then Inl (AuthorizationError ''Forbidden'')
         else Inl (Error ''Network timeout'')),
       collectionDocuments = (\<lambda>log k.
         if k = ''c1'' then Inr [NavigationNode ''d1'' ''New title'' []]
         else if k = ''c2'' then Inl (NotFoundError ''Gone'')
         else Inl (Error ''Network timeout'')),
       childDocuments = (\<lambda>docs k. []) \<rparr>"

definition emptyState :: state where
  "emptyState =
     \<lparr> socket = Some \<lparr>authenticated = False\<rparr>, toasts = [], requests = [],
       documents = [], collections = [], memberships = [], userMemberships = [],
       policies = [], comments = [], groups = [], pins = [], stars = [],
       subscriptions = [] \<rparr>"

definition exampleState :: state where
  "exampleState =
     emptyState
     \<lparr> documents :=
         [(''d1'', \<lparr> title = ''Old title'', document.updatedAt = ''t0'',
                    document.collectionId = Some ''c1'', publishedAt = None, deletedAt = None \<rparr>),
          (''d2'', \<lparr> title = ''Minutes'', document.updatedAt = ''t0'',
                    document.collectionId = Some ''c2'', publishedAt = Some ''p0'',
                    deletedAt = None \<rparr>),
          (''d3'', \<lparr> title = ''Report'', document.updatedAt = ''t0'',
                    document.collectionId = Some ''c1'', publishedAt = Some ''p0'',
                    deletedAt = None \<rparr>)],
       collections :=
         [(''c1'', \<lparr> collection.updatedAt = Some ''t0'', documents = Some [] \<rparr>),
          (''c2'', \<lparr> collection.updatedAt = Some ''t0'',
                    documents = Some [NavigationNode ''d2'' ''Minutes'' []] \<rparr>),
          (''c3'', \<lparr> collection.updatedAt = Some ''t0'', documents = None \<rparr>)],
       memberships :=
         [(''m1'', \<lparr> membership.userId = ''u1'', membership.collectionId = ''c1'' \<rparr>),
          (''m2'', \<lparr> membership.userId = ''u2'', membership.collectionId = ''c2'' \<rparr>)],
       userMemberships :=
         [(''um1'', \<lparr> userMembership.userId = ''u2'', documentId = ''d1'' \<rparr>)],
       policies :=
         [(''d1'', \<lparr> abilities = [(''read'', False)] \<rparr>),
          (''c1'', \<lparr> abilities = [(''read'', False)] \<rparr>)] \<rparr>"

definition exampleComment :: comment where
  "exampleComment =
     \<lparr> createdById = ''u0'', resolvedBy = None, resolvedById = None,
       documentId = ''d1'', parentCommentId = None \<rparr>"

definition exampleUser :: user where
  "exampleUser = \<lparr> user.id = ''u1'', name = ''Ann'' \<rparr>"

definition abortEvent :: entitiesEvent where
  "abortEvent =
     \<lparr> documentIds = Some [\<lparr>descriptor.id = ''d2'', updatedAt = Some ''t1''\<rparr>,
                           \<lparr>descriptor.id = ''d1'', updatedAt = Some ''t1''\<rparr>],
       collectionIds = Some [\<lparr>descriptor.id = ''c1'', updatedAt = Some ''t1''\<rparr>],
       fetchIfMissing = True \<rparr>"

definition missingEvent :: entitiesEvent where
  "missingEvent =
     \<lparr> documentIds = Some [\<lparr>descriptor.id = ''d1'', updatedAt = Some ''t0''\<rparr>],
       collectionIds = None,
       fetchIfMissing = True \<rparr>"

definition retitleEvent :: entitiesEvent where
  "retitleEvent =
     \<lparr> documentIds = Some [\<lparr>descriptor.id = ''d1'', updatedAt = Some ''t1''\<rparr>],
       collectionIds = None,
       fetchIfMissing = True \<rparr>"

section \<open>Facts about the stores and the two loops\<close>

lemma get_remove: "get (remove k st) k' = (if k' = k then None else get st k')"
  by (simp add: get_def remove_def delete_conv')

lemma get_add:
  "get (add m k v st) k' =
     (if k' = k then Some (case get st k of None \<Rightarrow> v | Some old \<Rightarrow> m old v) else get st k')"
  by (simp add: get_def add_def update_conv')

lemma wf_store_add: "wf_store st \<Longrightarrow> wf_store (add m k v st)"
  by (simp add: wf_store_def add_def distinct_update)

lemma wf_store_remove: "wf_store st \<Longrightarrow> wf_store (remove k st)"
  by (simp add: wf_store_def remove_def distinct_delete)

lemma wf_store_removeAll: "wf_store st \<Longrightarrow> wf_store (removeAll P st)"
  by (simp add: wf_store_def removeAll_def distinct_map_filter)

lemma documentLoop_append:
  "documentLoop e (xs @ ys) es =
     (case documentLoop e xs es of Return r \<Rightarrow> Return r | Continue es1 \<Rightarrow> documentLoop e ys es1)"
  by (induction xs arbitrary: es) (auto split: flow.splits)

lemma collectionLoop_append:
  "collectionLoop e f (xs @ ys) st =
     (case collectionLoop e f xs st of Return r \<Rightarrow> Return r | Continue st1 \<Rightarrow> collectionLoop e f ys st1)"
  by (induction xs arbitrary: st) (auto split: flow.splits)

lemma titleChanged_fetchIfMissing [simp]:
  "fetchIfMissing (titleChanged doc prev event) = fetchIfMissing event"
  by (simp add: titleChanged_def Let_def split: option.splits)

lemma titleChanged_documentIds [simp]:
  "documentIds (titleChanged doc prev event) = documentIds event"
  by (simp add: titleChanged_def Let_def split: option.splits)

lemma processDocumentDescriptor_state:
  "fetchIfMissing ev' = fetchIfMissing ev \<Longrightarrow>
   map_flow snd (processDocumentDescriptor e d (ev', st)) =
   map_flow snd (processDocumentDescriptor e d (ev, st))"
  by (simp add: processDocumentDescriptor_def Let_def split: prod.splits sum.splits)

lemma processDocumentDescriptor_fetchIfMissing:
  "processDocumentDescriptor e d (ev, st) = Continue (ev1, st1) \<Longrightarrow>
   fetchIfMissing ev1 = fetchIfMissing ev"
  by (auto simp add: processDocumentDescriptor_def Let_def split: prod.splits sum.splits if_splits)

lemma documentLoop_state:
  "fetchIfMissing ev' = fetchIfMissing ev \<Longrightarrow>
   map_flow snd (documentLoop e ds (ev', st)) = map_flow snd (documentLoop e ds (ev, st))"
proof (induction ds arbitrary: ev ev' st)
  case Nil
  then show ?case by simp
next
  case (Cons d ds)
  have step: "map_flow snd (processDocumentDescriptor e d (ev', st)) =
              map_flow snd (processDocumentDescriptor e d (ev, st))"
    using Cons.prems by (rule processDocumentDescriptor_state)
  show ?case
  proof (cases "processDocumentDescriptor e d (ev, st)")
    case (Return r)
    with step obtain r' where "processDocumentDescriptor e d (ev', st) = Return r'" "snd r' = snd r"
      by (cases "processDocumentDescriptor e d (ev', st)") auto
    with Return show ?thesis by simp
  next
    case (Continue c)
    with step obtain c' where c': "processDocumentDescriptor e d (ev', st) = Continue c'" "snd c' = snd c"
      by (cases "processDocumentDescriptor e d (ev', st)") auto
    obtain ev1 st1 where c: "c = (ev1, st1)" by (cases c)
    obtain ev1' where c'': "c' = (ev1', st1)" using c' c by (cases c') auto
    have "fetchIfMissing ev1 = fetchIfMissing ev"
      using Continue c by (auto dest: processDocumentDescriptor_fetchIfMissing)
    moreover have "fetchIfMissing ev1' = fetchIfMissing ev'"
      using c' c'' by (auto dest: processDocumentDescriptor_fetchIfMissing)
    ultimately have "fetchIfMissing ev1' = fetchIfMissing ev1" using Cons.prems by simp
    from Cons.IH [OF this] show ?thesis using Continue c c' c'' by simp
  qed
qed

lemma processDocumentDescriptor_abort:
  assumes "map_option document.updatedAt (get (documents st) (descriptor.id d)) \<noteq> descriptor.updatedAt d"
      and "get (documents st) (descriptor.id d) \<noteq> None \<or> fetchIfMissing event"
      and "documentInfo e (requests st) (descriptor.id d) = Inl err"
      and "isAuthorizationError err \<or> isNotFoundError err"
  shows "processDocumentDescriptor e d (event, st) =
         Return (event, st\<lparr>requests := requests st @ [FetchDocument (descriptor.id d)],
                          documents := remove (descriptor.id d) (documents st)\<rparr>)"
  using assms
  by (auto simp add: processDocumentDescriptor_def documents_fetch_def Let_def)

lemma titleChanged_same: "titleChanged doc (map_option title doc) event = event"
  by (simp add: titleChanged_def split: option.splits)

lemma processDocumentDescriptor_toasts:
  "toasts (snd (unflow (processDocumentDescriptor e d es))) = toasts (snd es)
   \<and> socket (snd (unflow (processDocumentDescriptor e d es))) = socket (snd es)"
  by (simp add: processDocumentDescriptor_def documents_fetch_def Let_def split: sum.splits)

lemma documentLoop_toasts:
  "toasts (snd (unflow (documentLoop e ds es))) = toasts (snd es)
   \<and> socket (snd (unflow (documentLoop e ds es))) = socket (snd es)"
proof (induction ds arbitrary: es)
  case Nil
  then show ?case by simp
next
  case (Cons d ds)
  show ?case
  proof (cases "processDocumentDescriptor e d es")
    case (Continue es1)
    with Cons.IH [of es1] processDocumentDescriptor_toasts [of e d es] show ?thesis by simp
  next
    case (Return es1)
    with processDocumentDescriptor_toasts [of e d es] show ?thesis by simp
  qed
qed

lemma processCollectionDescriptor_toasts:
  "toasts (unflow (processCollectionDescriptor e f d st)) = toasts st
   \<and> socket (unflow (processCollectionDescriptor e f d st)) = socket st"
  by (simp add: processCollectionDescriptor_def fetchDocuments_def Let_def
           split: sum.splits option.splits)

lemma collectionLoop_toasts:
  "toasts (unflow (collectionLoop e f ds st)) = toasts st
   \<and> socket (unflow (collectionLoop e f ds st)) = socket st"
proof (induction ds arbitrary: st)
  case Nil
  then show ?case by simp
next
  case (Cons d ds)
  show ?case
  proof (cases "processCollectionDescriptor e f d st")
    case (Continue st1)
    with Cons.IH [of st1] processCollectionDescriptor_toasts [of e f d st] show ?thesis by simp
  next
    case (Return st1)
    with processCollectionDescriptor_toasts [of e f d st] show ?thesis by simp
  qed
qed

lemma entities_toasts:
  "toasts (snd (entities e event st)) = toasts st \<and> socket (snd (entities e event st)) = socket st"
proof (cases "documentIds event")
  case None
  then show ?thesis
    using collectionLoop_toasts [of e "fetchIfMissing event" _ st]
    by (simp add: entities_def split: option.splits)
next
  case (Some ds)
  show ?thesis
  proof (cases "documentLoop e ds (event, st)")
    case (Return es1)
    with Some documentLoop_toasts [of e ds "(event, st)"] show ?thesis
      by (simp add: entities_def)
  next
    case (Continue es1)
    obtain event1 st1 where es1: "es1 = (event1, st1)" by (cases es1)
    have "toasts st1 = toasts st \<and> socket st1 = socket st"
      using Continue es1 documentLoop_toasts [of e ds "(event, st)"] by simp
    then show ?thesis
      using Some Continue es1 collectionLoop_toasts [of e "fetchIfMissing event1" _ st1]
      by (simp add: entities_def split: option.splits)
  qed
qed

lemma remove_add: "remove k (add m k v st) = remove k st"
  by (simp add: remove_def add_def delete_update_same)

lemma remove_absent: "get st k = None \<Longrightarrow> remove k st = st"
  by (simp add: remove_def get_def map_of_eq_None_iff delete_id)

lemma removeAll_none_left: "(k, v) \<in> set (removeAll P st) \<Longrightarrow> \<not> P v"
  by (auto simp add: removeAll_def)

lemma noDocuments_iff:
  "noDocuments c \<longleftrightarrow>
     (c = None \<or> (\<exists>col. c = Some col \<and>
        (collection.documents col = None \<or> collection.documents col = Some [])))"
  by (auto simp add: noDocuments_def split: option.splits)

lemma detachOrDelete_fold_frame:
  "collections (fold (detachOrDelete t) L s) = collections s
   \<and> memberships (fold (detachOrDelete t) L s) = memberships s"
  by (induction L arbitrary: s) (simp_all add: detachOrDelete_def Let_def)

lemma detachOrDelete_fold_notin:
  "k \<notin> fst ` set L \<Longrightarrow>
   map_of (documents (fold (detachOrDelete t) L s)) k = map_of (documents s) k"
  by (induction L arbitrary: s) (auto simp add: detachOrDelete_def Let_def update_conv')

lemma detachOrDelete_documents:
  "map_of (documents (detachOrDelete t (k, doc) s)) k =
     Some (if \<not> truthy (publishedAt doc)
           then doc\<lparr>document.collectionId := None\<rparr>
           else doc\<lparr>deletedAt := Some t\<rparr>)"
  by (simp add: detachOrDelete_def Let_def update_conv')

lemma detachOrDelete_fold_in:
  "distinct (map fst L) \<Longrightarrow> (k, doc) \<in> set L \<Longrightarrow>
   map_of (documents (fold (detachOrDelete t) L s)) k =
     Some (if \<not> truthy (publishedAt doc)
           then doc\<lparr>document.collectionId := None\<rparr>
           else doc\<lparr>deletedAt := Some t\<rparr>)"
proof (induction L arbitrary: s)
  case Nil
  then show ?case by simp
next
  case (Cons x L)
  show ?case
  proof (cases "x = (k, doc)")
    case True
    have "fst x \<notin> set (map fst L)" using Cons.prems(1) by simp
    then have "k \<notin> fst ` set L" using True by simp
    then have "map_of (documents (fold (detachOrDelete t) L (detachOrDelete t (k, doc) s))) k =
               map_of (documents (detachOrDelete t (k, doc) s)) k"
      by (rule detachOrDelete_fold_notin)
    then show ?thesis
      unfolding True by (simp only: fold_simps detachOrDelete_documents)
  next
    case False
    then have "(k, doc) \<in> set L" using Cons.prems(2) by auto
    moreover have "distinct (map fst L)" using Cons.prems(1) by simp
    ultimately show ?thesis using Cons.IH by simp
  qed
qed

lemma inCollection_distinct: "wf_store docs \<Longrightarrow> distinct (map fst (inCollection cid docs))"
  by (simp add: wf_store_def inCollection_def distinct_map_filter)

lemma inCollection_member:
  "get docs k = Some doc \<Longrightarrow> document.collectionId doc = Some cid \<Longrightarrow>
   (k, doc) \<in> set (inCollection cid docs)"
  by (auto simp add: get_def inCollection_def dest: map_of_SomeD)

lemma fold_remove_documents:
  "documents (fold (\<lambda>childId s. s\<lparr>policies := remove childId (policies s)\<rparr>) cs s) = documents s"
  by (induction cs arbitrary: s) simp_all

lemma removeChildPolicies_frame:
  "documents (removeChildPolicies e d st) = documents st"
  by (simp add: removeChildPolicies_def fold_remove_documents split: option.splits)

lemma fold_remove_policies:
  "get (policies (fold (\<lambda>childId s. s\<lparr>policies := remove childId (policies s)\<rparr>) cs s)) k = Some p
   \<Longrightarrow> get (policies s) k = Some p"
proof (induction cs arbitrary: s)
  case Nil
  then show ?case by simp
next
  case (Cons a cs)
  have "get (policies (s\<lparr>policies := remove a (policies s)\<rparr>)) k = Some p"
    using Cons.prems Cons.IH [of "s\<lparr>policies := remove a (policies s)\<rparr>"] by simp
  then show ?case by (simp add: get_remove split: if_splits)
qed

lemma removeChildPolicies_policies:
  assumes "get (policies (removeChildPolicies e d st)) k = Some p"
  shows "get (policies st) k = Some p"
proof (cases "get (documents st) d")
  case None
  then show ?thesis using assms by (simp add: removeChildPolicies_def)
next
  case (Some doc)
  then have "get (policies (fold (\<lambda>childId s. s\<lparr>policies := remove childId (policies s)\<rparr>)
                (childDocuments e (documents st) d) st)) k = Some p"
    using assms by (simp add: removeChildPolicies_def)
  then show ?thesis by (rule fold_remove_policies)
qed

lemma titleChanged_keeps:
  "c \<in> set (collectionDescriptors ev) \<Longrightarrow>
   c \<in> set (collectionDescriptors (titleChanged doc prev ev))"
  by (auto simp add: titleChanged_def collectionDescriptors_def Let_def split: option.splits)

lemma processDocumentDescriptor_keeps:
  "c \<in> set (collectionDescriptors (fst es)) \<Longrightarrow>
   c \<in> set (collectionDescriptors (fst (unflow (processDocumentDescriptor e d es))))"
  by (simp add: processDocumentDescriptor_def Let_def titleChanged_keeps
           split: prod.splits sum.splits)

lemma documentLoop_keeps:
  "c \<in> set (collectionDescriptors (fst es)) \<Longrightarrow>
   c \<in> set (collectionDescriptors (fst (unflow (documentLoop e ds es))))"
proof (induction ds arbitrary: es)
  case Nil
  then show ?case by simp
next
  case (Cons d ds)
  show ?case
  proof (cases "processDocumentDescriptor e d es")
    case (Continue es1)
    have "c \<in> set (collectionDescriptors (fst es1))"
      using processDocumentDescriptor_keeps [OF Cons.prems, of e d] Continue by simp
    from Cons.IH [OF this] show ?thesis using Continue by simp
  next
    case (Return es1)
    then show ?thesis
      using processDocumentDescriptor_keeps [OF Cons.prems, of e d] by simp
  qed
qed

lemma entities_event:
  "documentIds event = Some docs \<Longrightarrow>
   fst (entities e event st) = fst (unflow (documentLoop e docs (event, st)))"
  by (cases "documentLoop e docs (event, st)")
     (auto simp add: entities_def split: option.splits)

lemma entities_collections:
  "documentIds event = Some docs \<Longrightarrow>
   documentLoop e docs (event, st) = Continue (event1, st1) \<Longrightarrow>
   entities e event st =
     (event1, unflow (collectionLoop e (fetchIfMissing event1) (collectionDescriptors event1) st1))"
  by (simp add: entities_def collectionDescriptors_def split: option.splits)

lemma entities_no_documents:
  "documentIds event = None \<Longrightarrow>
   entities e event st =
     (event, unflow (collectionLoop e (fetchIfMissing event) (collectionDescriptors event) st))"
  by (simp add: entities_def collectionDescriptors_def split: option.splits)

section \<open>The entities batch: loss of access aborts the batch\<close>

text \<open>
  Claim C1. Take a batch whose document descriptors are \<open>pre @ d # rest\<close>, and let the
  descriptors before \<open>d\<close> be processed without leaving the handler. If \<open>d\<close> is neither
  current nor skipped as missing, and its forced refetch fails with an AuthorizationError
  or a NotFoundError, then the handler ends there: the state is the one reached before
  \<open>d\<close>, with the one refetch request logged and the document removed from the document
  store. Neither \<open>rest\<close> nor any collection descriptor is processed (the result does not
  mention them, and no further request is sent). In general, processing a prefix of the
  document or collection descriptors does not depend on the descriptors after it: a loop
  over \<open>xs @ ys\<close> is the loop over \<open>xs\<close> followed, unless it left the handler, by the loop
  over \<open>ys\<close>; and what the document loop does to the state does not depend on the
  collection descriptors of the event.
\<close>

theorem entities_abort_on_lost_access:
  assumes "documentIds event = Some (pre @ d # rest)"
      and "documentLoop e pre (event, st) = Continue (event1, st1)"
      and "map_option document.updatedAt (get (documents st1) (descriptor.id d)) \<noteq> descriptor.updatedAt d"
      and "get (documents st1) (descriptor.id d) \<noteq> None \<or> fetchIfMissing event1"
      and "documentInfo e (requests st1) (descriptor.id d) = Inl err"
      and "isAuthorizationError err \<or> isNotFoundError err"
  shows "entities e event st =
           (event1, st1\<lparr>requests := requests st1 @ [FetchDocument (descriptor.id d)],
                        documents := remove (descriptor.id d) (documents st1)\<rparr>)
         \<and> get (documents (snd (entities e event st))) (descriptor.id d) = None
         \<and> (\<forall>xs ys es. documentLoop e (xs @ ys) es =
               (case documentLoop e xs es of
                  Return r \<Rightarrow> Return r
                | Continue es1 \<Rightarrow> documentLoop e ys es1))
         \<and> (\<forall>f xs ys s. collectionLoop e f (xs @ ys) s =
               (case collectionLoop e f xs s of
                  Return r \<Rightarrow> Return r
                | Continue s1 \<Rightarrow> collectionLoop e f ys s1))
         \<and> (\<forall>ds ev ev' s. fetchIfMissing ev' = fetchIfMissing ev \<longrightarrow>
               map_flow snd (documentLoop e ds (ev', s)) = map_flow snd (documentLoop e ds (ev, s)))"
proof -
  have "documentLoop e (pre @ d # rest) (event, st) =
          Return (event1, st1\<lparr>requests := requests st1 @ [FetchDocument (descriptor.id d)],
                              documents := remove (descriptor.id d) (documents st1)\<rparr>)"
    using assms(2) processDocumentDescriptor_abort [OF assms(3-6)]
    by (simp add: documentLoop_append)
  then have a: "entities e event st =
           (event1, st1\<lparr>requests := requests st1 @ [FetchDocument (descriptor.id d)],
                        documents := remove (descriptor.id d) (documents st1)\<rparr>)"
    using assms(1) by (simp add: entities_def)
  have b: "get (remove k xs) k = None" for k and xs :: "document store"
    by (simp add: get_def remove_def delete_conv')
  have c: "get (documents (snd (entities e event st))) (descriptor.id d) = None"
    by (simp add: a b)
  show ?thesis
    using a c documentLoop_append collectionLoop_append documentLoop_state by blast
qed

theorem entities_abort_on_lost_access_witness:
  "entities exampleEnv abortEvent exampleState =
     (abortEvent,
      exampleState\<lparr>requests := [FetchDocument ''d2''],
                   documents := remove ''d2'' (documents exampleState)\<rparr>)
   \<and> get (documents (snd (entities exampleEnv abortEvent exampleState))) ''d2'' = None
   \<and> get (documents exampleState) ''d2'' \<noteq> None"
proof -
  have h1: "documentIds abortEvent =
              Some ([] @ \<lparr>descriptor.id = ''d2'', updatedAt = Some ''t1''\<rparr>
                    # [\<lparr>descriptor.id = ''d1'', updatedAt = Some ''t1''\<rparr>])"
    by (simp add: abortEvent_def)
  have h2: "documentLoop exampleEnv [] (abortEvent, exampleState) = Continue (abortEvent, exampleState)"
    by simp
  have h3: "map_option document.updatedAt
              (get (documents exampleState) (descriptor.id \<lparr>descriptor.id = ''d2'', updatedAt = Some ''t1''\<rparr>))
            \<noteq> descriptor.updatedAt \<lparr>descriptor.id = ''d2'', updatedAt = Some ''t1''\<rparr>"
    by (simp add: exampleState_def emptyState_def get_def)
  have h4: "get (documents exampleState) (descriptor.id \<lparr>descriptor.id = ''d2'', updatedAt = Some ''t1''\<rparr>) \<noteq> None
            \<or> fetchIfMissing abortEvent"
    by (simp add: abortEvent_def)
  have h5: "documentInfo exampleEnv (requests exampleState)
              (descriptor.id \<lparr>descriptor.id = ''d2'', updatedAt = Some ''t1''\<rparr>)
            = Inl (AuthorizationError ''Forbidden'')"
    by (simp add: exampleEnv_def)
  have h6: "isAuthorizationError (AuthorizationError ''Forbidden'')
            \<or> isNotFoundError (AuthorizationError ''Forbidden'')"
    by simp
  have r: "requests exampleState = []"
    by (simp add: exampleState_def emptyState_def)
  have g: "get (documents exampleState) ''d2'' \<noteq> None"
    by (simp add: exampleState_def emptyState_def get_def)
  show ?thesis
    using entities_abort_on_lost_access [OF h1 h2 h3 h4 h5 h6] r g by (simp add: get_remove)
qed

section \<open>The entities batch: a current document is skipped\<close>

text \<open>
  Claim C2. A document descriptor whose \<open>updatedAt\<close> equals the \<open>updatedAt\<close> of the cached
  record is skipped: its pass through the loop body leaves the event and the whole state
  as they were, so no refetch request is logged and the cached record is unchanged, and
  the loop goes on with the next descriptor. This holds wherever the descriptor stands in
  the batch: \<open>pre\<close> is what was processed before it.
\<close>

theorem entities_skips_current_document:
  assumes "get (documents st) (descriptor.id d) = Some doc"
      and "descriptor.updatedAt d = Some (document.updatedAt doc)"
  shows "processDocumentDescriptor e d (event, st) = Continue (event, st)
         \<and> documentLoop e (d # ds) (event, st) = documentLoop e ds (event, st)
         \<and> (\<forall>pre es. documentLoop e pre es = Continue (event, st) \<longrightarrow>
               documentLoop e (pre @ d # ds) es = documentLoop e ds (event, st))"
proof -
  have a: "processDocumentDescriptor e d (event, st) = Continue (event, st)"
    using assms by (simp add: processDocumentDescriptor_def Let_def)
  then show ?thesis by (simp add: documentLoop_append)
qed

theorem entities_skips_current_document_witness:
  "get (documents exampleState) ''d1'' \<noteq> None
   \<and> processDocumentDescriptor exampleEnv \<lparr>descriptor.id = ''d1'', updatedAt = Some ''t0''\<rparr>
        (missingEvent, exampleState) = Continue (missingEvent, exampleState)
   \<and> entities exampleEnv missingEvent exampleState = (missingEvent, exampleState)"
proof -
  have h1: "get (documents exampleState) (descriptor.id \<lparr>descriptor.id = ''d1'', updatedAt = Some ''t0''\<rparr>)
            = Some \<lparr> title = ''Old title'', document.updatedAt = ''t0'',
                    document.collectionId = Some ''c1'', publishedAt = None, deletedAt = None \<rparr>"
    by (simp add: exampleState_def emptyState_def get_def)
  have h2: "descriptor.updatedAt \<lparr>descriptor.id = ''d1'', updatedAt = Some ''t0''\<rparr>
            = Some (document.updatedAt \<lparr> title = ''Old title'', document.updatedAt = ''t0'',
                    document.collectionId = Some ''c1'', publishedAt = None, deletedAt = None \<rparr>)"
    by simp
  note w = entities_skips_current_document [OF h1 h2, of exampleEnv missingEvent "[]"]
  have a: "get (documents exampleState) ''d1'' \<noteq> None" using h1 by simp
  have b: "documentLoop exampleEnv [\<lparr>descriptor.id = ''d1'', updatedAt = Some ''t0''\<rparr>]
             (missingEvent, exampleState) = Continue (missingEvent, exampleState)"
    using w by simp
  have c: "entities exampleEnv missingEvent exampleState = (missingEvent, exampleState)"
    using b by (simp add: entities_def missingEvent_def)
  show ?thesis using w a c by blast
qed

section \<open>The entities batch: a title change adds the owning collection\<close>

text \<open>
  Claim C3. Let a document descriptor be refetched (it is not current, and it is cached or
  \<open>fetchIfMissing\<close> is set), let the refetch succeed, and let the fetched title differ from
  the previously cached title, which is always so when the document was not cached. Then
  the pass ends normally; if the fetched document has an owning collection and no
  descriptor of the collection list has that id, a descriptor for it (without
  \<open>updatedAt\<close>) is appended to the list; if it has no owning collection or the id is
  already present, the list is left as it was (an undefined list having become the empty
  list). The fetched record is added to the document store, and the loop goes on with the
  event and the state the pass produced. When the descriptor stands in the batch of the
  handler, after the descriptors \<open>pre\<close> and before \<open>rest\<close>, the event the handler ends
  with lists a descriptor for the owning collection: the appended one when the id was not
  listed. When the document loop does not leave the handler, the collection loop then
  runs over the list of the event the document loop ended with.
\<close>

theorem entities_title_change_synthesizes_collection:
  assumes "map_option document.updatedAt (get (documents st) (descriptor.id d)) \<noteq> descriptor.updatedAt d"
      and "get (documents st) (descriptor.id d) \<noteq> None \<or> fetchIfMissing event"
      and "documentInfo e (requests st) (descriptor.id d) = Inr fetched"
      and "map_option title (get (documents st) (descriptor.id d)) \<noteq> Some (title fetched)"
      and "ids = (case collectionIds event of None \<Rightarrow> [] | Some cs \<Rightarrow> cs)"
  shows "(\<exists>es1. processDocumentDescriptor e d (event, st) = Continue es1)
         \<and> (\<forall>cid. document.collectionId fetched = Some cid \<and> cid \<noteq> []
                  \<and> cid \<notin> descriptor.id ` set ids \<longrightarrow>
               fst (unflow (processDocumentDescriptor e d (event, st))) =
                 event\<lparr>collectionIds := Some (ids @ [\<lparr>descriptor.id = cid, updatedAt = None\<rparr>])\<rparr>)
         \<and> (\<not> truthy (document.collectionId fetched)
              \<or> (\<exists>c \<in> set ids. Some (descriptor.id c) = document.collectionId fetched) \<longrightarrow>
               fst (unflow (processDocumentDescriptor e d (event, st))) =
                 event\<lparr>collectionIds := Some ids\<rparr>)
         \<and> snd (unflow (processDocumentDescriptor e d (event, st))) =
               st\<lparr>requests := requests st @ [FetchDocument (descriptor.id d)],
                  documents := add replaceRecord (descriptor.id d) fetched (documents st)\<rparr>
         \<and> documentLoop e (d # rest) (event, st) =
               documentLoop e rest (unflow (processDocumentDescriptor e d (event, st)))
         \<and> (documentIds event0 = Some (pre @ d # rest)
              \<and> documentLoop e pre (event0, st0) = Continue (event, st) \<longrightarrow>
               documentLoop e (pre @ d # rest) (event0, st0) =
                 documentLoop e rest (unflow (processDocumentDescriptor e d (event, st)))
               \<and> (\<forall>cid. document.collectionId fetched = Some cid \<and> cid \<noteq> []
                        \<and> cid \<notin> descriptor.id ` set ids \<longrightarrow>
                     \<lparr>descriptor.id = cid, updatedAt = None\<rparr>
                       \<in> set (collectionDescriptors (fst (entities e event0 st0))))
               \<and> (\<forall>cid. document.collectionId fetched = Some cid \<and> cid \<noteq> [] \<longrightarrow>
                     (\<exists>c \<in> set (collectionDescriptors (fst (entities e event0 st0))).
                        descriptor.id c = cid))
               \<and> (\<forall>event2 st2.
                     documentLoop e rest (unflow (processDocumentDescriptor e d (event, st)))
                       = Continue (event2, st2) \<longrightarrow>
                     entities e event0 st0 =
                       (event2, unflow (collectionLoop e (fetchIfMissing event2)
                                          (collectionDescriptors event2) st2))))"
proof -
  have run: "processDocumentDescriptor e d (event, st) =
        Continue (titleChanged (Some fetched)
                    (map_option title (get (documents st) (descriptor.id d))) event,
                  st\<lparr>requests := requests st @ [FetchDocument (descriptor.id d)],
                     documents := add replaceRecord (descriptor.id d) fetched (documents st)\<rparr>)"
    using assms(1-3) by (auto simp add: processDocumentDescriptor_def documents_fetch_def Let_def)
  have push: "titleChanged (Some fetched)
                (map_option title (get (documents st) (descriptor.id d))) event =
              event\<lparr>collectionIds := Some (ids @ [\<lparr>descriptor.id = cid, updatedAt = None\<rparr>])\<rparr>"
    if "document.collectionId fetched = Some cid" "cid \<noteq> []" "cid \<notin> descriptor.id ` set ids" for cid
  proof -
    have "find (\<lambda>c. Some (descriptor.id c) = Some cid) ids = None"
      using that(3) by (auto simp add: find_None_iff)
    then show ?thesis
      using that(1,2) assms(4,5) by (simp add: titleChanged_def truthy_def Let_def)
  qed
  have keep: "titleChanged (Some fetched)
                (map_option title (get (documents st) (descriptor.id d))) event =
              event\<lparr>collectionIds := Some ids\<rparr>"
    if "\<not> truthy (document.collectionId fetched)
        \<or> (\<exists>c \<in> set ids. Some (descriptor.id c) = document.collectionId fetched)"
  proof (cases "document.collectionId fetched")
    case None
    then show ?thesis using assms(4,5) by (simp add: titleChanged_def Let_def)
  next
    case (Some cid)
    have "cid = [] \<or> find (\<lambda>c. Some (descriptor.id c) = Some cid) ids \<noteq> None"
      using that Some by (auto simp add: truthy_def find_None_iff)
    then show ?thesis
      using Some assms(4,5) by (auto simp add: titleChanged_def truthy_def Let_def)
  qed
  let ?es1 = "unflow (processDocumentDescriptor e d (event, st))"
  have old: "(\<exists>es1. processDocumentDescriptor e d (event, st) = Continue es1)
         \<and> (\<forall>cid. document.collectionId fetched = Some cid \<and> cid \<noteq> []
                  \<and> cid \<notin> descriptor.id ` set ids \<longrightarrow>
               fst ?es1 =
                 event\<lparr>collectionIds := Some (ids @ [\<lparr>descriptor.id = cid, updatedAt = None\<rparr>])\<rparr>)
         \<and> (\<not> truthy (document.collectionId fetched)
              \<or> (\<exists>c \<in> set ids. Some (descriptor.id c) = document.collectionId fetched) \<longrightarrow>
               fst ?es1 = event\<lparr>collectionIds := Some ids\<rparr>)
         \<and> snd ?es1 =
               st\<lparr>requests := requests st @ [FetchDocument (descriptor.id d)],
                  documents := add replaceRecord (descriptor.id d) fetched (documents st)\<rparr>"
    using run push keep by simp
  have step: "documentLoop e (d # rest) (event, st) = documentLoop e rest ?es1"
    using run by simp
  have pushed: "\<lparr>descriptor.id = cid, updatedAt = None\<rparr> \<in> set (collectionDescriptors (fst ?es1))"
    if "document.collectionId fetched = Some cid" "cid \<noteq> []" "cid \<notin> descriptor.id ` set ids" for cid
    using run push [OF that] by (simp add: collectionDescriptors_def)
  have listed: "\<exists>c \<in> set (collectionDescriptors (fst ?es1)). descriptor.id c = cid"
    if c: "document.collectionId fetched = Some cid" "cid \<noteq> []" for cid
  proof (cases "cid \<in> descriptor.id ` set ids")
    case False
    from pushed [OF c False] show ?thesis by force
  next
    case True
    then have "\<exists>c \<in> set ids. Some (descriptor.id c) = document.collectionId fetched"
      using c(1) by auto
    then have "fst ?es1 = event\<lparr>collectionIds := Some ids\<rparr>"
      using run keep by simp
    then show ?thesis using True by (auto simp add: collectionDescriptors_def)
  qed
  have batch: "documentLoop e (pre @ d # rest) (event0, st0) = documentLoop e rest ?es1
               \<and> (\<forall>cid. document.collectionId fetched = Some cid \<and> cid \<noteq> []
                        \<and> cid \<notin> descriptor.id ` set ids \<longrightarrow>
                     \<lparr>descriptor.id = cid, updatedAt = None\<rparr>
                       \<in> set (collectionDescriptors (fst (entities e event0 st0))))
               \<and> (\<forall>cid. document.collectionId fetched = Some cid \<and> cid \<noteq> [] \<longrightarrow>
                     (\<exists>c \<in> set (collectionDescriptors (fst (entities e event0 st0))).
                        descriptor.id c = cid))
               \<and> (\<forall>event2 st2. documentLoop e rest ?es1 = Continue (event2, st2) \<longrightarrow>
                     entities e event0 st0 =
                       (event2, unflow (collectionLoop e (fetchIfMissing event2)
                                          (collectionDescriptors event2) st2)))"
    if b: "documentIds event0 = Some (pre @ d # rest)"
          "documentLoop e pre (event0, st0) = Continue (event, st)"
  proof -
    have whole: "documentLoop e (pre @ d # rest) (event0, st0) = documentLoop e rest ?es1"
      using b(2) step by (simp add: documentLoop_append)
    have final: "fst (entities e event0 st0) = fst (unflow (documentLoop e rest ?es1))"
      using entities_event [OF b(1), of e st0] whole by simp
    have survive: "c \<in> set (collectionDescriptors (fst ?es1)) \<Longrightarrow>
                   c \<in> set (collectionDescriptors (fst (entities e event0 st0)))" for c
      unfolding final by (rule documentLoop_keeps)
    have f1: "\<forall>cid. document.collectionId fetched = Some cid \<and> cid \<noteq> []
                        \<and> cid \<notin> descriptor.id ` set ids \<longrightarrow>
                     \<lparr>descriptor.id = cid, updatedAt = None\<rparr>
                       \<in> set (collectionDescriptors (fst (entities e event0 st0)))"
      using pushed survive by blast
    have f2: "\<forall>cid. document.collectionId fetched = Some cid \<and> cid \<noteq> [] \<longrightarrow>
                     (\<exists>c \<in> set (collectionDescriptors (fst (entities e event0 st0))).
                        descriptor.id c = cid)"
      using listed survive by blast
    have f3: "\<forall>event2 st2. documentLoop e rest ?es1 = Continue (event2, st2) \<longrightarrow>
                     entities e event0 st0 =
                       (event2, unflow (collectionLoop e (fetchIfMissing event2)
                                          (collectionDescriptors event2) st2))"
      using entities_collections [OF b(1), of e st0] whole by simp
    show ?thesis by (intro conjI whole f1 f2 f3)
  qed
  show ?thesis
    using old step batch by blast
qed

theorem entities_title_change_synthesizes_collection_witness:
  "get (documents emptyState) ''d1'' = None
   \<and> fst (unflow (processDocumentDescriptor exampleEnv
             \<lparr>descriptor.id = ''d1'', updatedAt = Some ''t0''\<rparr> (missingEvent, emptyState))) =
       missingEvent\<lparr>collectionIds := Some [\<lparr>descriptor.id = ''c1'', updatedAt = None\<rparr>]\<rparr>
   \<and> \<lparr>descriptor.id = ''c1'', updatedAt = None\<rparr>
        \<in> set (collectionDescriptors (fst (entities exampleEnv missingEvent emptyState)))
   \<and> entities exampleEnv missingEvent emptyState =
       (missingEvent\<lparr>collectionIds := Some [\<lparr>descriptor.id = ''c1'', updatedAt = None\<rparr>]\<rparr>,
        emptyState\<lparr>requests := [FetchDocument ''d1''],
                   documents :=
                     [(''d1'', \<lparr> title = ''New title'', document.updatedAt = ''t1'',
                               document.collectionId = Some ''c1'', publishedAt = None,
                               deletedAt = None \<rparr>)]\<rparr>)"
proof -
  let ?d = "\<lparr>descriptor.id = ''d1'', updatedAt = Some ''t0''\<rparr>"
  let ?f = "\<lparr> title = ''New title'', document.updatedAt = ''t1'',
                 document.collectionId = Some ''c1'', publishedAt = None, deletedAt = None \<rparr>"
  have g: "get (documents emptyState) ''d1'' = None"
    by (simp add: emptyState_def get_def)
  have h1: "map_option document.updatedAt (get (documents emptyState) (descriptor.id ?d))
            \<noteq> descriptor.updatedAt ?d"
    using g by simp
  have h2: "get (documents emptyState) (descriptor.id ?d) \<noteq> None \<or> fetchIfMissing missingEvent"
    by (simp add: missingEvent_def)
  have h3: "documentInfo exampleEnv (requests emptyState) (descriptor.id ?d) = Inr ?f"
    by (simp add: exampleEnv_def)
  have h4: "map_option title (get (documents emptyState) (descriptor.id ?d)) \<noteq> Some (title ?f)"
    using g by simp
  have h5: "[] = (case collectionIds missingEvent of None \<Rightarrow> [] | Some cs \<Rightarrow> cs)"
    by (simp add: missingEvent_def)
  note w = entities_title_change_synthesizes_collection [OF h1 h2 h3 h4 h5,
             where pre = "[]" and rest = "[]" and ?event0.0 = missingEvent and ?st0.0 = emptyState]
  have step: "fst (unflow (processDocumentDescriptor exampleEnv ?d (missingEvent, emptyState))) =
       missingEvent\<lparr>collectionIds := Some [\<lparr>descriptor.id = ''c1'', updatedAt = None\<rparr>]\<rparr>"
    using w by simp
  have b: "documentIds missingEvent = Some ([] @ ?d # [])
           \<and> documentLoop exampleEnv [] (missingEvent, emptyState) = Continue (missingEvent, emptyState)"
    by (simp add: missingEvent_def)
  have inbatch: "\<lparr>descriptor.id = ''c1'', updatedAt = None\<rparr>
        \<in> set (collectionDescriptors (fst (entities exampleEnv missingEvent emptyState)))"
    using w b by simp
  have run: "entities exampleEnv missingEvent emptyState =
       (missingEvent\<lparr>collectionIds := Some [\<lparr>descriptor.id = ''c1'', updatedAt = None\<rparr>]\<rparr>,
        emptyState\<lparr>requests := [FetchDocument ''d1''],
                   documents := [(''d1'', ?f)]\<rparr>)"
    by (simp add: entities_def missingEvent_def emptyState_def exampleEnv_def
          processDocumentDescriptor_def documents_fetch_def titleChanged_def
          processCollectionDescriptor_def get_def add_def truthy_def Let_def)
  show ?thesis
    using g step inbatch run by simp
qed

section \<open>The entities batch: collection descriptors\<close>

text \<open>
  Claim C4, amended. A collection descriptor is skipped if the cached collection's
  \<open>updatedAt\<close> equals the descriptor's; it is skipped if \<open>fetchIfMissing\<close> is false and
  the collection is absent locally or holds no documents in its cached document list;
  otherwise, when the collection is cached, its document list is force-refetched: the
  request is sent, and when it succeeds the list replaces the cached one and the loop goes
  on with the next descriptor; and when that refetch fails with an AuthorizationError or a
  NotFoundError, every membership scoped to the collection and the collection record are
  removed and the remaining collection descriptors are not processed. The collection
  descriptors are processed after all document descriptors, also when the event has no
  document descriptors, from the list as the document loop left it; that list holds every
  descriptor a pass of the document loop had in its list, synthesized ones included.
\<close>

theorem collection_descriptor_processing:
  "(Option.bind (get (collections st) (descriptor.id d)) collection.updatedAt
      = descriptor.updatedAt d \<longrightarrow>
      processCollectionDescriptor e fetchMissing d st = Continue st
      \<and> collectionLoop e fetchMissing (d # ds) st = collectionLoop e fetchMissing ds st)
   \<and> (\<not> fetchMissing \<and> noDocuments (get (collections st) (descriptor.id d)) \<longrightarrow>
        processCollectionDescriptor e fetchMissing d st = Continue st
        \<and> collectionLoop e fetchMissing (d # ds) st = collectionLoop e fetchMissing ds st)
   \<and> (Option.bind (get (collections st) (descriptor.id d)) collection.updatedAt
         \<noteq> descriptor.updatedAt d
       \<and> (fetchMissing \<or> \<not> noDocuments (get (collections st) (descriptor.id d)))
       \<and> get (collections st) (descriptor.id d) \<noteq> None \<longrightarrow>
        requests (unflow (processCollectionDescriptor e fetchMissing d st)) =
          requests st @ [FetchCollectionDocuments (descriptor.id d)])
   \<and> (Option.bind (get (collections st) (descriptor.id d)) collection.updatedAt
         \<noteq> descriptor.updatedAt d
       \<and> (fetchMissing \<or> \<not> noDocuments (get (collections st) (descriptor.id d)))
       \<and> get (collections st) (descriptor.id d) = Some c
       \<and> collectionDocuments e (requests st) (descriptor.id d) = Inr nodes \<longrightarrow>
        processCollectionDescriptor e fetchMissing d st =
          Continue (st\<lparr>requests := requests st @ [FetchCollectionDocuments (descriptor.id d)],
                      collections :=
                        AList.update (descriptor.id d) (c\<lparr>collection.documents := Some nodes\<rparr>)
                          (collections st)\<rparr>)
        \<and> collectionLoop e fetchMissing (d # ds) st =
            collectionLoop e fetchMissing ds
              (st\<lparr>requests := requests st @ [FetchCollectionDocuments (descriptor.id d)],
                  collections :=
                    AList.update (descriptor.id d) (c\<lparr>collection.documents := Some nodes\<rparr>)
                      (collections st)\<rparr>))
   \<and> (Option.bind (get (collections st) (descriptor.id d)) collection.updatedAt
         \<noteq> descriptor.updatedAt d
       \<and> (fetchMissing \<or> \<not> noDocuments (get (collections st) (descriptor.id d)))
       \<and> get (collections st) (descriptor.id d) \<noteq> None
       \<and> collectionDocuments e (requests st) (descriptor.id d) = Inl err
       \<and> (isAuthorizationError err \<or> isNotFoundError err) \<longrightarrow>
        processCollectionDescriptor e fetchMissing d st =
          Return (st\<lparr>requests := requests st @ [FetchCollectionDocuments (descriptor.id d)],
                    memberships :=
                      removeAll (\<lambda>m. membership.collectionId m = descriptor.id d) (memberships st),
                    collections := remove (descriptor.id d) (collections st)\<rparr>)
        \<and> collectionLoop e fetchMissing (d # ds) st =
          Return (st\<lparr>requests := requests st @ [FetchCollectionDocuments (descriptor.id d)],
                    memberships :=
                      removeAll (\<lambda>m. membership.collectionId m = descriptor.id d) (memberships st),
                    collections := remove (descriptor.id d) (collections st)\<rparr>)
        \<and> get (collections (unflow (processCollectionDescriptor e fetchMissing d st)))
              (descriptor.id d) = None
        \<and> (\<forall>k m. (k, m) \<in> set (memberships
                       (unflow (processCollectionDescriptor e fetchMissing d st))) \<longrightarrow>
               membership.collectionId m \<noteq> descriptor.id d))
   \<and> (documentIds event = Some docs
       \<and> documentLoop e docs (event, st) = Continue (event1, st1) \<longrightarrow>
        entities e event st =
          (event1, unflow (collectionLoop e (fetchIfMissing event1)
                             (collectionDescriptors event1) st1)))
   \<and> (documentIds event = None \<longrightarrow>
        entities e event st =
          (event, unflow (collectionLoop e (fetchIfMissing event)
                            (collectionDescriptors event) st)))
   \<and> (documentLoop e pre (event, st) = Continue es
       \<and> documentLoop e (pre @ x # rest) (event, st) = Continue (event1, st1)
       \<and> s \<in> set (collectionDescriptors (fst (unflow (processDocumentDescriptor e x es)))) \<longrightarrow>
        s \<in> set (collectionDescriptors event1))"
proof -
  let ?cid = "descriptor.id d"
  let ?col = "get (collections st) ?cid"
  have a: "Option.bind ?col collection.updatedAt = descriptor.updatedAt d \<longrightarrow>
      processCollectionDescriptor e fetchMissing d st = Continue st
      \<and> collectionLoop e fetchMissing (d # ds) st = collectionLoop e fetchMissing ds st"
    by (simp add: processCollectionDescriptor_def Let_def)
  have b: "\<not> fetchMissing \<and> noDocuments ?col \<longrightarrow>
        processCollectionDescriptor e fetchMissing d st = Continue st
        \<and> collectionLoop e fetchMissing (d # ds) st = collectionLoop e fetchMissing ds st"
    by (simp add: processCollectionDescriptor_def Let_def)
  have c3: "Option.bind ?col collection.updatedAt \<noteq> descriptor.updatedAt d
       \<and> (fetchMissing \<or> \<not> noDocuments ?col)
       \<and> ?col \<noteq> None \<longrightarrow>
        requests (unflow (processCollectionDescriptor e fetchMissing d st)) =
          requests st @ [FetchCollectionDocuments ?cid]"
    by (auto simp add: processCollectionDescriptor_def fetchDocuments_def Let_def
             split: sum.splits)
  have ok: "processCollectionDescriptor e fetchMissing d st =
          Continue (st\<lparr>requests := requests st @ [FetchCollectionDocuments ?cid],
                      collections :=
                        AList.update ?cid (c\<lparr>collection.documents := Some nodes\<rparr>)
                          (collections st)\<rparr>)"
    if "Option.bind ?col collection.updatedAt \<noteq> descriptor.updatedAt d"
       "fetchMissing \<or> \<not> noDocuments ?col" "?col = Some c"
       "collectionDocuments e (requests st) ?cid = Inr nodes"
    using that
    by (auto simp add: processCollectionDescriptor_def fetchDocuments_def Let_def)
  have s4: "Option.bind ?col collection.updatedAt \<noteq> descriptor.updatedAt d
       \<and> (fetchMissing \<or> \<not> noDocuments ?col)
       \<and> ?col = Some c
       \<and> collectionDocuments e (requests st) ?cid = Inr nodes \<longrightarrow>
        processCollectionDescriptor e fetchMissing d st =
          Continue (st\<lparr>requests := requests st @ [FetchCollectionDocuments ?cid],
                      collections :=
                        AList.update ?cid (c\<lparr>collection.documents := Some nodes\<rparr>)
                          (collections st)\<rparr>)
        \<and> collectionLoop e fetchMissing (d # ds) st =
            collectionLoop e fetchMissing ds
              (st\<lparr>requests := requests st @ [FetchCollectionDocuments ?cid],
                  collections :=
                    AList.update ?cid (c\<lparr>collection.documents := Some nodes\<rparr>)
                      (collections st)\<rparr>)"
  proof (intro impI)
    assume h: "Option.bind ?col collection.updatedAt \<noteq> descriptor.updatedAt d
       \<and> (fetchMissing \<or> \<not> noDocuments ?col)
       \<and> ?col = Some c
       \<and> collectionDocuments e (requests st) ?cid = Inr nodes"
    have ok': "processCollectionDescriptor e fetchMissing d st =
          Continue (st\<lparr>requests := requests st @ [FetchCollectionDocuments ?cid],
                      collections :=
                        AList.update ?cid (c\<lparr>collection.documents := Some nodes\<rparr>)
                          (collections st)\<rparr>)"
      using h ok by blast
    show "processCollectionDescriptor e fetchMissing d st =
          Continue (st\<lparr>requests := requests st @ [FetchCollectionDocuments ?cid],
                      collections :=
                        AList.update ?cid (c\<lparr>collection.documents := Some nodes\<rparr>)
                          (collections st)\<rparr>)
        \<and> collectionLoop e fetchMissing (d # ds) st =
            collectionLoop e fetchMissing ds
              (st\<lparr>requests := requests st @ [FetchCollectionDocuments ?cid],
                  collections :=
                    AList.update ?cid (c\<lparr>collection.documents := Some nodes\<rparr>)
                      (collections st)\<rparr>)"
      by (simp add: ok')
  qed
  have r: "processCollectionDescriptor e fetchMissing d st =
          Return (st\<lparr>requests := requests st @ [FetchCollectionDocuments ?cid],
                    memberships := removeAll (\<lambda>m. membership.collectionId m = ?cid) (memberships st),
                    collections := remove ?cid (collections st)\<rparr>)"
    if "Option.bind ?col collection.updatedAt \<noteq> descriptor.updatedAt d"
       "fetchMissing \<or> \<not> noDocuments ?col" "?col \<noteq> None"
       "collectionDocuments e (requests st) ?cid = Inl err"
       "isAuthorizationError err \<or> isNotFoundError err"
    using that
    by (auto simp add: processCollectionDescriptor_def fetchDocuments_def Let_def)
  have m: "membership.collectionId m \<noteq> ?cid"
    if "(k, m) \<in> set (removeAll (\<lambda>m. membership.collectionId m = ?cid) (memberships st))" for k m
    using removeAll_none_left [OF that] .
  have d5: "Option.bind ?col collection.updatedAt \<noteq> descriptor.updatedAt d
       \<and> (fetchMissing \<or> \<not> noDocuments ?col)
       \<and> ?col \<noteq> None
       \<and> collectionDocuments e (requests st) ?cid = Inl err
       \<and> (isAuthorizationError err \<or> isNotFoundError err) \<longrightarrow>
        processCollectionDescriptor e fetchMissing d st =
          Return (st\<lparr>requests := requests st @ [FetchCollectionDocuments ?cid],
                    memberships := removeAll (\<lambda>m. membership.collectionId m = ?cid) (memberships st),
                    collections := remove ?cid (collections st)\<rparr>)
        \<and> collectionLoop e fetchMissing (d # ds) st =
          Return (st\<lparr>requests := requests st @ [FetchCollectionDocuments ?cid],
                    memberships := removeAll (\<lambda>m. membership.collectionId m = ?cid) (memberships st),
                    collections := remove ?cid (collections st)\<rparr>)
        \<and> get (collections (unflow (processCollectionDescriptor e fetchMissing d st))) ?cid = None
        \<and> (\<forall>k m. (k, m) \<in> set (memberships
                       (unflow (processCollectionDescriptor e fetchMissing d st))) \<longrightarrow>
               membership.collectionId m \<noteq> ?cid)"
  proof (intro impI)
    assume h: "Option.bind ?col collection.updatedAt \<noteq> descriptor.updatedAt d
       \<and> (fetchMissing \<or> \<not> noDocuments ?col)
       \<and> ?col \<noteq> None
       \<and> collectionDocuments e (requests st) ?cid = Inl err
       \<and> (isAuthorizationError err \<or> isNotFoundError err)"
    have r': "processCollectionDescriptor e fetchMissing d st =
          Return (st\<lparr>requests := requests st @ [FetchCollectionDocuments ?cid],
                    memberships := removeAll (\<lambda>m. membership.collectionId m = ?cid) (memberships st),
                    collections := remove ?cid (collections st)\<rparr>)"
      using h by (intro r) simp_all
    show "processCollectionDescriptor e fetchMissing d st =
          Return (st\<lparr>requests := requests st @ [FetchCollectionDocuments ?cid],
                    memberships := removeAll (\<lambda>m. membership.collectionId m = ?cid) (memberships st),
                    collections := remove ?cid (collections st)\<rparr>)
        \<and> collectionLoop e fetchMissing (d # ds) st =
          Return (st\<lparr>requests := requests st @ [FetchCollectionDocuments ?cid],
                    memberships := removeAll (\<lambda>m. membership.collectionId m = ?cid) (memberships st),
                    collections := remove ?cid (collections st)\<rparr>)
        \<and> get (collections (unflow (processCollectionDescriptor e fetchMissing d st))) ?cid = None
        \<and> (\<forall>k m. (k, m) \<in> set (memberships
                       (unflow (processCollectionDescriptor e fetchMissing d st))) \<longrightarrow>
               membership.collectionId m \<noteq> ?cid)"
      unfolding r' using m by (simp add: r' get_remove)
  qed
  have f6: "documentIds event = Some docs
       \<and> documentLoop e docs (event, st) = Continue (event1, st1) \<longrightarrow>
        entities e event st =
          (event1, unflow (collectionLoop e (fetchIfMissing event1)
                             (collectionDescriptors event1) st1))"
    using entities_collections by blast
  have f7: "documentIds event = None \<longrightarrow>
        entities e event st =
          (event, unflow (collectionLoop e (fetchIfMissing event)
                            (collectionDescriptors event) st))"
    using entities_no_documents by blast
  have f8: "documentLoop e pre (event, st) = Continue es
       \<and> documentLoop e (pre @ x # rest) (event, st) = Continue (event1, st1)
       \<and> s \<in> set (collectionDescriptors (fst (unflow (processDocumentDescriptor e x es)))) \<longrightarrow>
        s \<in> set (collectionDescriptors event1)"
  proof (intro impI, elim conjE)
    assume p: "documentLoop e pre (event, st) = Continue es"
       and w: "documentLoop e (pre @ x # rest) (event, st) = Continue (event1, st1)"
       and s: "s \<in> set (collectionDescriptors (fst (unflow (processDocumentDescriptor e x es))))"
    have w': "documentLoop e (x # rest) es = Continue (event1, st1)"
      using p w by (simp add: documentLoop_append)
    then obtain es1 where x: "processDocumentDescriptor e x es = Continue es1"
      by (cases "processDocumentDescriptor e x es") auto
    then have rest: "documentLoop e rest es1 = Continue (event1, st1)"
      using w' by simp
    have "s \<in> set (collectionDescriptors (fst es1))" using s x by simp
    from documentLoop_keeps [OF this, of e rest] show "s \<in> set (collectionDescriptors event1)"
      using rest by simp
  qed
  show ?thesis by (intro conjI a b c3 s4 d5 f6 f7 f8)
qed

theorem collection_descriptor_processing_witness:
  "processCollectionDescriptor exampleEnv False
       \<lparr>descriptor.id = ''c1'', updatedAt = Some ''t0''\<rparr> exampleState = Continue exampleState
   \<and> processCollectionDescriptor exampleEnv False
       \<lparr>descriptor.id = ''c2'', updatedAt = Some ''t1''\<rparr> exampleState =
       Return (exampleState\<lparr>requests := [FetchCollectionDocuments ''c2''],
                 memberships := removeAll (\<lambda>m. membership.collectionId m = ''c2'')
                                  (memberships exampleState),
                 collections := remove ''c2'' (collections exampleState)\<rparr>)
   \<and> get (collections (unflow (processCollectionDescriptor exampleEnv False
          \<lparr>descriptor.id = ''c2'', updatedAt = Some ''t1''\<rparr> exampleState))) ''c2'' = None
   \<and> get (collections exampleState) ''c2'' \<noteq> None
   \<and> processCollectionDescriptor exampleEnv True
       \<lparr>descriptor.id = ''c1'', updatedAt = Some ''t1''\<rparr> exampleState =
       Continue (exampleState\<lparr>requests := [FetchCollectionDocuments ''c1''],
                   collections := AList.update ''c1''
                     \<lparr> collection.updatedAt = Some ''t0'',
                       documents = Some [NavigationNode ''d1'' ''New title'' []] \<rparr>
                     (collections exampleState)\<rparr>)
   \<and> fst (entities exampleEnv retitleEvent exampleState) =
       retitleEvent\<lparr>collectionIds := Some [\<lparr>descriptor.id = ''c1'', updatedAt = None\<rparr>]\<rparr>
   \<and> requests (snd (entities exampleEnv retitleEvent exampleState)) =
       [FetchDocument ''d1'', FetchCollectionDocuments ''c1'']
   \<and> get (collections (snd (entities exampleEnv retitleEvent exampleState))) ''c1'' =
       Some \<lparr> collection.updatedAt = Some ''t0'',
              documents = Some [NavigationNode ''d1'' ''New title'' []] \<rparr>"
proof -
  have r: "requests exampleState = []"
    by (simp add: exampleState_def emptyState_def)
  have c1: "get (collections exampleState) ''c1'' =
              Some \<lparr> collection.updatedAt = Some ''t0'', documents = Some [] \<rparr>"
    by (simp add: exampleState_def emptyState_def get_def)
  have c2: "get (collections exampleState) ''c2'' =
              Some \<lparr> collection.updatedAt = Some ''t0'',
                     documents = Some [NavigationNode ''d2'' ''Minutes'' []] \<rparr>"
    by (simp add: exampleState_def emptyState_def get_def)
  have e1: "collectionDocuments exampleEnv [] ''c1'' = Inr [NavigationNode ''d1'' ''New title'' []]"
    by (simp add: exampleEnv_def)
  have e2: "collectionDocuments exampleEnv [] ''c2'' = Inl (NotFoundError ''Gone'')"
    by (simp add: exampleEnv_def)
  have skip: "processCollectionDescriptor exampleEnv False
       \<lparr>descriptor.id = ''c1'', updatedAt = Some ''t0''\<rparr> exampleState = Continue exampleState"
    using collection_descriptor_processing [where st = exampleState and e = exampleEnv
            and fetchMissing = False and d = "\<lparr>descriptor.id = ''c1'', updatedAt = Some ''t0''\<rparr>",
            THEN conjunct1] c1
    by simp
  have hyp: "Option.bind (get (collections exampleState)
                 (descriptor.id \<lparr>descriptor.id = ''c2'', updatedAt = Some ''t1''\<rparr>))
               collection.updatedAt
             \<noteq> descriptor.updatedAt \<lparr>descriptor.id = ''c2'', updatedAt = Some ''t1''\<rparr>
       \<and> (False \<or> \<not> noDocuments (get (collections exampleState)
                 (descriptor.id \<lparr>descriptor.id = ''c2'', updatedAt = Some ''t1''\<rparr>)))
       \<and> get (collections exampleState)
             (descriptor.id \<lparr>descriptor.id = ''c2'', updatedAt = Some ''t1''\<rparr>) \<noteq> None
       \<and> collectionDocuments exampleEnv (requests exampleState)
             (descriptor.id \<lparr>descriptor.id = ''c2'', updatedAt = Some ''t1''\<rparr>)
           = Inl (NotFoundError ''Gone'')
       \<and> (isAuthorizationError (NotFoundError ''Gone'') \<or> isNotFoundError (NotFoundError ''Gone''))"
    using r c2 e2 by (simp add: noDocuments_def)
  have abort: "processCollectionDescriptor exampleEnv False
       \<lparr>descriptor.id = ''c2'', updatedAt = Some ''t1''\<rparr> exampleState =
       Return (exampleState\<lparr>requests := [FetchCollectionDocuments ''c2''],
                 memberships := removeAll (\<lambda>m. membership.collectionId m = ''c2'')
                                  (memberships exampleState),
                 collections := remove ''c2'' (collections exampleState)\<rparr>)"
    using collection_descriptor_processing [where st = exampleState and e = exampleEnv
            and fetchMissing = False and d = "\<lparr>descriptor.id = ''c2'', updatedAt = Some ''t1''\<rparr>"
            and err = "NotFoundError ''Gone''",
            THEN conjunct2, THEN conjunct2, THEN conjunct2, THEN conjunct2, THEN conjunct1,
            THEN mp, OF hyp, THEN conjunct1] r
    by simp
  have hyp2: "Option.bind (get (collections exampleState)
                 (descriptor.id \<lparr>descriptor.id = ''c1'', updatedAt = Some ''t1''\<rparr>))
               collection.updatedAt
             \<noteq> descriptor.updatedAt \<lparr>descriptor.id = ''c1'', updatedAt = Some ''t1''\<rparr>
       \<and> (True \<or> \<not> noDocuments (get (collections exampleState)
                 (descriptor.id \<lparr>descriptor.id = ''c1'', updatedAt = Some ''t1''\<rparr>)))
       \<and> get (collections exampleState)
             (descriptor.id \<lparr>descriptor.id = ''c1'', updatedAt = Some ''t1''\<rparr>)
           = Some \<lparr> collection.updatedAt = Some ''t0'', documents = Some [] \<rparr>
       \<and> collectionDocuments exampleEnv (requests exampleState)
             (descriptor.id \<lparr>descriptor.id = ''c1'', updatedAt = Some ''t1''\<rparr>)
           = Inr [NavigationNode ''d1'' ''New title'' []]"
    using r c1 e1 by simp
  have refetch: "processCollectionDescriptor exampleEnv True
       \<lparr>descriptor.id = ''c1'', updatedAt = Some ''t1''\<rparr> exampleState =
       Continue (exampleState\<lparr>requests := [FetchCollectionDocuments ''c1''],
                   collections := AList.update ''c1''
                     \<lparr> collection.updatedAt = Some ''t0'',
                       documents = Some [NavigationNode ''d1'' ''New title'' []] \<rparr>
                     (collections exampleState)\<rparr>)"
    using collection_descriptor_processing [where st = exampleState and e = exampleEnv
            and fetchMissing = True and d = "\<lparr>descriptor.id = ''c1'', updatedAt = Some ''t1''\<rparr>",
            THEN conjunct2, THEN conjunct2, THEN conjunct2, THEN conjunct1,
            THEN mp, OF hyp2, THEN conjunct1] r
    by simp
  have run: "entities exampleEnv retitleEvent exampleState =
       (retitleEvent\<lparr>collectionIds := Some [\<lparr>descriptor.id = ''c1'', updatedAt = None\<rparr>]\<rparr>,
        exampleState\<lparr>requests := [FetchDocument ''d1'', FetchCollectionDocuments ''c1''],
            documents := add replaceRecord ''d1''
               \<lparr> title = ''New title'', document.updatedAt = ''t1'',
                 document.collectionId = Some ''c1'', publishedAt = None, deletedAt = None \<rparr>
               (documents exampleState),
            collections := AList.update ''c1''
               \<lparr> collection.updatedAt = Some ''t0'',
                 documents = Some [NavigationNode ''d1'' ''New title'' []] \<rparr>
               (collections exampleState)\<rparr>)"
    by (simp add: entities_def retitleEvent_def exampleState_def emptyState_def exampleEnv_def
          processDocumentDescriptor_def documents_fetch_def titleChanged_def
          processCollectionDescriptor_def fetchDocuments_def noDocuments_def
          get_def truthy_def Let_def)
  have got: "get (AList.update ''c1'' v (collections exampleState)) ''c1'' = Some v" for v
    by (simp add: get_def update_conv')
  show ?thesis
    using skip abort refetch c2 run got by (simp add: get_remove)
qed

text \<open>
  The claim as first stated fails on two inputs. The collection \<open>c1\<close> is cached with an
  empty document list and an \<open>updatedAt\<close> other than the descriptor's; with
  \<open>fetchIfMissing\<close> false the claim has it refetched, since it is not absent locally, but
  the handler skips it and sends no request. The collection \<open>c9\<close> is not cached; with
  \<open>fetchIfMissing\<close> true the claim has it refetched, but the optional call on the
  missing collection does nothing and no request is sent.
\<close>

theorem collection_descriptor_counterexample:
  "get (collections exampleState) ''c1'' \<noteq> None
   \<and> Option.bind (get (collections exampleState) ''c1'') collection.updatedAt \<noteq> Some ''t1''
   \<and> processCollectionDescriptor exampleEnv False
         \<lparr>descriptor.id = ''c1'', updatedAt = Some ''t1''\<rparr> exampleState = Continue exampleState
   \<and> get (collections exampleState) ''c9'' = None
   \<and> processCollectionDescriptor exampleEnv True
         \<lparr>descriptor.id = ''c9'', updatedAt = Some ''t1''\<rparr> exampleState = Continue exampleState"
  by (simp add: processCollectionDescriptor_def exampleState_def emptyState_def get_def
        noDocuments_def Let_def)

section \<open>Deleting a collection\<close>

text \<open>
  Claim C5. After a \<open>collections.delete\<close> event, every cached document that was in the
  collection has its collection reference cleared if it was never published, and carries
  the deletion time if it was published; no membership scoped to the collection remains;
  and the collection record is gone from the collection store. The document store holds
  one record per identifier, as the store contract requires.
\<close>

theorem collections_delete_cascade:
  assumes "wf_store (documents st)"
  shows "(\<forall>k doc. get (documents st) k = Some doc \<and> document.collectionId doc = Some cid \<longrightarrow>
            (\<not> truthy (publishedAt doc) \<longrightarrow>
               get (documents (snd (on_collections_delete e cid st))) k =
                 Some (doc\<lparr>document.collectionId := None\<rparr>))
            \<and> (truthy (publishedAt doc) \<longrightarrow>
               get (documents (snd (on_collections_delete e cid st))) k =
                 Some (doc\<lparr>deletedAt := Some (now e)\<rparr>)))
         \<and> (\<forall>k m. (k, m) \<in> set (memberships (snd (on_collections_delete e cid st))) \<longrightarrow>
               membership.collectionId m \<noteq> cid)
         \<and> get (collections (snd (on_collections_delete e cid st))) cid = None"
proof -
  let ?L = "inCollection cid (documents st)"
  let ?s1 = "fold (detachOrDelete (now e)) ?L st"
  have docs: "documents (snd (on_collections_delete e cid st)) = documents ?s1"
    by (simp add: on_collections_delete_def Let_def)
  have mems: "memberships (snd (on_collections_delete e cid st)) =
              removeAll (\<lambda>m. membership.collectionId m = cid) (memberships st)"
    using detachOrDelete_fold_frame [of "now e" ?L st]
    by (simp add: on_collections_delete_def Let_def)
  have cols: "collections (snd (on_collections_delete e cid st)) = remove cid (collections st)"
    using detachOrDelete_fold_frame [of "now e" ?L st]
    by (simp add: on_collections_delete_def Let_def)
  have a: "get (documents ?s1) k =
             Some (if \<not> truthy (publishedAt doc)
                   then doc\<lparr>document.collectionId := None\<rparr>
                   else doc\<lparr>deletedAt := Some (now e)\<rparr>)"
    if "get (documents st) k = Some doc" "document.collectionId doc = Some cid" for k doc
    using detachOrDelete_fold_in [OF inCollection_distinct [OF assms] inCollection_member [OF that]]
    by (simp add: get_def)
  have b: "membership.collectionId m \<noteq> cid"
    if "(k, m) \<in> set (removeAll (\<lambda>m. membership.collectionId m = cid) (memberships st))" for k m
    using removeAll_none_left [OF that] .
  have c: "get (remove cid (collections st)) cid = None"
    by (simp add: get_remove)
  show ?thesis
    unfolding docs mems cols using a b c by auto
qed

theorem collections_delete_cascade_witness:
  "wf_store (documents exampleState)
   \<and> get (documents (snd (on_collections_delete exampleEnv ''c1'' exampleState))) ''d1'' =
       Some \<lparr> title = ''Old title'', document.updatedAt = ''t0'',
              document.collectionId = None, publishedAt = None, deletedAt = None \<rparr>
   \<and> get (documents (snd (on_collections_delete exampleEnv ''c1'' exampleState))) ''d3'' =
       Some \<lparr> title = ''Report'', document.updatedAt = ''t0'',
              document.collectionId = Some ''c1'', publishedAt = Some ''p0'',
              deletedAt = Some ''2024-05-01T10:00:00.000Z'' \<rparr>
   \<and> get (collections (snd (on_collections_delete exampleEnv ''c1'' exampleState))) ''c1'' = None
   \<and> get (collections exampleState) ''c1'' \<noteq> None"
proof -
  have wf: "wf_store (documents exampleState)"
    by (simp add: wf_store_def exampleState_def emptyState_def)
  note w = collections_delete_cascade [OF wf, of "''c1''" exampleEnv]
  have d1: "get (documents exampleState) ''d1'' =
       Some \<lparr> title = ''Old title'', document.updatedAt = ''t0'',
              document.collectionId = Some ''c1'', publishedAt = None, deletedAt = None \<rparr>"
    by (simp add: exampleState_def emptyState_def get_def)
  have d3: "get (documents exampleState) ''d3'' =
       Some \<lparr> title = ''Report'', document.updatedAt = ''t0'',
              document.collectionId = Some ''c1'', publishedAt = Some ''p0'', deletedAt = None \<rparr>"
    by (simp add: exampleState_def emptyState_def get_def)
  have c1: "get (collections exampleState) ''c1'' \<noteq> None"
    by (simp add: exampleState_def emptyState_def get_def)
  have n: "now exampleEnv = ''2024-05-01T10:00:00.000Z''"
    by (simp add: exampleEnv_def)
  have a: "get (documents (snd (on_collections_delete exampleEnv ''c1'' exampleState))) ''d1'' =
       Some \<lparr> title = ''Old title'', document.updatedAt = ''t0'',
              document.collectionId = None, publishedAt = None, deletedAt = None \<rparr>"
    using w [THEN conjunct1, rule_format, of "''d1''", OF conjI [OF d1], THEN conjunct1]
    by (simp add: truthy_def)
  have b: "get (documents (snd (on_collections_delete exampleEnv ''c1'' exampleState))) ''d3'' =
       Some \<lparr> title = ''Report'', document.updatedAt = ''t0'',
              document.collectionId = Some ''c1'', publishedAt = Some ''p0'',
              deletedAt = Some ''2024-05-01T10:00:00.000Z'' \<rparr>"
    using w [THEN conjunct1, rule_format, of "''d3''", OF conjI [OF d3], THEN conjunct2] n
    by (simp add: truthy_def)
  show ?thesis using wf a b c1 w by blast
qed

section \<open>Removing a user from a document or a collection\<close>

text \<open>
  Claim C6. The \<open>documents.remove_user\<close> handler changes the document store only at the
  event's document, and only when a Policy is cached for that document with read ability
  false; when no Policy is cached for it, the document store is left as it was. The same
  holds of the \<open>collections.remove_user\<close> handler and the collection store.
\<close>

theorem remove_user_needs_denying_policy:
  "(get (documents (snd (on_documents_remove_user e (i, m) st))) k \<noteq> get (documents st) k \<longrightarrow>
      k = userMembership.documentId m
      \<and> (\<exists>pol. get (policies st) k = Some pol \<and> map_of (abilities pol) ''read'' = Some False))
   \<and> (get (policies st) (userMembership.documentId m) = None \<longrightarrow>
        documents (snd (on_documents_remove_user e (i, m) st)) = documents st)
   \<and> (get (collections (snd (on_collections_remove_user (j, cm) st))) k \<noteq> get (collections st) k \<longrightarrow>
        k = membership.collectionId cm
        \<and> (\<exists>pol. get (policies st) k = Some pol \<and> map_of (abilities pol) ''read'' = Some False))
   \<and> (get (policies st) (membership.collectionId cm) = None \<longrightarrow>
        collections (snd (on_collections_remove_user (j, cm) st)) = collections st)"
proof -
  define st1 where "st1 = st\<lparr>userMemberships := remove i (userMemberships st)\<rparr>"
  define st2 where "st2 = (if Some (userMembership.userId m) = currentUserId e
              then removeChildPolicies e (userMembership.documentId m) st1 else st1)"
  have d1: "documents st1 = documents st" and p1: "policies st1 = policies st"
    by (simp_all add: st1_def)
  have d2: "documents st2 = documents st"
    unfolding st2_def using d1 by (simp add: removeChildPolicies_frame)
  have p2: "get (policies st2) x = Some p \<Longrightarrow> get (policies st) x = Some p" for x p
  proof (cases "Some (userMembership.userId m) = currentUserId e")
    case True
    assume "get (policies st2) x = Some p"
    then have "get (policies (removeChildPolicies e (userMembership.documentId m) st1)) x = Some p"
      using True by (simp add: st2_def)
    then have "get (policies st1) x = Some p" by (rule removeChildPolicies_policies)
    then show ?thesis using p1 by simp
  next
    case False
    assume "get (policies st2) x = Some p"
    then show ?thesis using False p1 by (simp add: st2_def)
  qed
  have "snd (on_documents_remove_user e (i, m) st) =
       (if readDenied (get (policies st2) (userMembership.documentId m))
        then st2\<lparr>documents := remove (userMembership.documentId m) (documents st2)\<rparr> else st2)"
    unfolding on_documents_remove_user_def st2_def st1_def by (simp add: Let_def)
  then have run: "documents (snd (on_documents_remove_user e (i, m) st)) =
       (if readDenied (get (policies st2) (userMembership.documentId m))
        then remove (userMembership.documentId m) (documents st) else documents st)"
    using d2 by simp
  have den: "readDenied (get (policies st2) x) \<Longrightarrow>
        \<exists>pol. get (policies st) x = Some pol \<and> map_of (abilities pol) ''read'' = Some False" for x
    using p2 [of x] by (auto simp add: readDenied_def split: option.splits)
  have a: "get (documents (snd (on_documents_remove_user e (i, m) st))) k \<noteq> get (documents st) k \<longrightarrow>
      k = userMembership.documentId m
      \<and> (\<exists>pol. get (policies st) k = Some pol \<and> map_of (abilities pol) ''read'' = Some False)"
  proof (cases "readDenied (get (policies st2) (userMembership.documentId m))")
    case True
    show ?thesis
      using den [OF True] by (auto simp add: run True get_remove split: if_splits)
  next
    case False
    then show ?thesis by (simp add: run)
  qed
  have b: "get (policies st) (userMembership.documentId m) = None \<longrightarrow>
        documents (snd (on_documents_remove_user e (i, m) st)) = documents st"
  proof (cases "readDenied (get (policies st2) (userMembership.documentId m))")
    case True
    show ?thesis using den [OF True] by auto
  next
    case False
    then show ?thesis by (simp add: run)
  qed
  have crun: "collections (snd (on_collections_remove_user (j, cm) st)) =
       (if readDenied (get (policies st) (membership.collectionId cm))
        then remove (membership.collectionId cm) (collections st) else collections st)"
    by (simp add: on_collections_remove_user_def Let_def)
  have c: "get (collections (snd (on_collections_remove_user (j, cm) st))) k \<noteq> get (collections st) k \<longrightarrow>
        k = membership.collectionId cm
        \<and> (\<exists>pol. get (policies st) k = Some pol \<and> map_of (abilities pol) ''read'' = Some False)"
    unfolding crun by (auto simp add: get_remove readDenied_def split: if_splits option.splits)
  have d: "get (policies st) (membership.collectionId cm) = None \<longrightarrow>
        collections (snd (on_collections_remove_user (j, cm) st)) = collections st"
    unfolding crun by (simp add: readDenied_def)
  show ?thesis by (intro conjI a b c d)
qed

theorem remove_user_needs_denying_policy_witness:
  "get (documents (snd (on_documents_remove_user exampleEnv
          (''um1'', \<lparr>userMembership.userId = ''u2'', documentId = ''d1''\<rparr>) exampleState))) ''d1''
     \<noteq> get (documents exampleState) ''d1''
   \<and> get (policies exampleState) ''d1'' = Some \<lparr>abilities = [(''read'', False)]\<rparr>
   \<and> get (policies exampleState) ''d3'' = None
   \<and> documents (snd (on_documents_remove_user exampleEnv
          (''um1'', \<lparr>userMembership.userId = ''u2'', documentId = ''d3''\<rparr>) exampleState))
     = documents exampleState
   \<and> get (policies exampleState) ''c2'' = None
   \<and> collections (snd (on_collections_remove_user
          (''m2'', \<lparr>membership.userId = ''u2'', membership.collectionId = ''c2''\<rparr>) exampleState))
     = collections exampleState"
proof -
  have p1: "get (policies exampleState) ''d1'' = Some \<lparr>abilities = [(''read'', False)]\<rparr>"
    by (simp add: exampleState_def emptyState_def get_def)
  have p3: "get (policies exampleState) ''d3'' = None"
    by (simp add: exampleState_def emptyState_def get_def)
  have p2: "get (policies exampleState) ''c2'' = None"
    by (simp add: exampleState_def emptyState_def get_def)
  have gone: "get (documents (snd (on_documents_remove_user exampleEnv
          (''um1'', \<lparr>userMembership.userId = ''u2'', documentId = ''d1''\<rparr>) exampleState))) ''d1''
     \<noteq> get (documents exampleState) ''d1''"
    by (simp add: on_documents_remove_user_def exampleEnv_def exampleState_def emptyState_def
          readDenied_def get_def remove_def Let_def)
  show ?thesis
    using remove_user_needs_denying_policy [where e = exampleEnv and st = exampleState
            and i = "''um1''" and m = "\<lparr>userMembership.userId = ''u2'', documentId = ''d3''\<rparr>"
            and j = "''m2''"
            and cm = "\<lparr>membership.userId = ''u2'', membership.collectionId = ''c2''\<rparr>"]
          p1 p2 p3 gone
    by simp
qed

section \<open>Create followed by delete\<close>

text \<open>
  Claim C7. For comments, groups, pins, stars, subscriptions and collections (the entity
  types with both a create and a delete handler), the create handler followed by the
  delete handler for the same id leaves the entity's store as the store without that id;
  when the id was not in the store before, the store is exactly as it was.
\<close>

theorem create_then_delete_round_trip:
  "comments (snd (on_comments_delete k (snd (on_comments_create (k, p) st)))) = remove k (comments st)
   \<and> groups (snd (on_groups_delete k (snd (on_groups_create (k, p) st)))) = remove k (groups st)
   \<and> pins (snd (on_pins_delete k (snd (on_pins_create (k, p) st)))) = remove k (pins st)
   \<and> stars (snd (on_stars_delete k (snd (on_stars_create (k, p) st)))) = remove k (stars st)
   \<and> subscriptions (snd (on_subscriptions_delete k (snd (on_subscriptions_create (k, p) st))))
        = remove k (subscriptions st)
   \<and> collections (snd (on_collections_delete e k (snd (on_collections_create (k, c) st))))
        = remove k (collections st)
   \<and> (get (comments st) k = None \<longrightarrow>
        comments (snd (on_comments_delete k (snd (on_comments_create (k, p) st)))) = comments st)
   \<and> (get (groups st) k = None \<longrightarrow>
        groups (snd (on_groups_delete k (snd (on_groups_create (k, p) st)))) = groups st)
   \<and> (get (pins st) k = None \<longrightarrow>
        pins (snd (on_pins_delete k (snd (on_pins_create (k, p) st)))) = pins st)
   \<and> (get (stars st) k = None \<longrightarrow>
        stars (snd (on_stars_delete k (snd (on_stars_create (k, p) st)))) = stars st)
   \<and> (get (subscriptions st) k = None \<longrightarrow>
        subscriptions (snd (on_subscriptions_delete k (snd (on_subscriptions_create (k, p) st))))
          = subscriptions st)
   \<and> (get (collections st) k = None \<longrightarrow>
        collections (snd (on_collections_delete e k (snd (on_collections_create (k, c) st))))
          = collections st)"
proof -
  have col: "collections (snd (on_collections_delete e k (snd (on_collections_create (k, c) st))))
        = remove k (collections st)"
    using detachOrDelete_fold_frame
    by (simp add: on_collections_delete_def on_collections_create_def Let_def remove_add)
  show ?thesis
    unfolding col
    by (simp add: on_comments_delete_def on_comments_create_def on_groups_delete_def
          on_groups_create_def on_pins_delete_def on_pins_create_def on_stars_delete_def
          on_stars_create_def on_subscriptions_delete_def on_subscriptions_create_def
          remove_add remove_absent)
qed

theorem create_then_delete_round_trip_witness:
  "get (comments exampleState) ''x1'' = None
   \<and> comments (snd (on_comments_delete ''x1''
        (snd (on_comments_create (''x1'', [''text'' \<mapsto> ''Hello'']) exampleState))))
      = comments exampleState
   \<and> get (collections exampleState) ''x1'' = None
   \<and> collections (snd (on_collections_delete exampleEnv ''x1''
        (snd (on_collections_create
               (''x1'', \<lparr>collection.updatedAt = Some ''t0'', documents = None\<rparr>) exampleState))))
      = collections exampleState"
proof -
  have a: "get (comments exampleState) ''x1'' = None"
    by (simp add: exampleState_def emptyState_def get_def)
  have b: "get (collections exampleState) ''x1'' = None"
    by (simp add: exampleState_def emptyState_def get_def)
  show ?thesis
    using create_then_delete_round_trip [where k = "''x1''" and st = exampleState
            and e = exampleEnv and p = "[''text'' \<mapsto> ''Hello'']"
            and c = "\<lparr>collection.updatedAt = Some ''t0'', documents = None\<rparr>"]
          a b
    by (simp add: remove_absent)
qed

section \<open>The handshake signals\<close>

text \<open>
  Claim C8. On the \<open>authenticated\<close> signal the socket's authenticated flag becomes true
  (nothing happens when the socket reference is null). On the \<open>unauthorized\<close> signal the
  flag becomes false, an error notice with the error's message is appended to the notices
  shown to the user, and the error escapes the handler.
\<close>

theorem handshake_flags:
  "(socket st = Some s \<longrightarrow>
      on_authenticated st = (None, st\<lparr>socket := Some (s\<lparr>authenticated := True\<rparr>)\<rparr>))
   \<and> (socket st = None \<longrightarrow> on_authenticated st = (None, st))
   \<and> fst (on_unauthorized err st) = Some err
   \<and> toasts (snd (on_unauthorized err st)) = toasts st @ [ToastError (message err)]
   \<and> (socket st = Some s \<longrightarrow>
        socket (snd (on_unauthorized err st)) = Some (s\<lparr>authenticated := False\<rparr>))
   \<and> (socket st = None \<longrightarrow> socket (snd (on_unauthorized err st)) = None)"
  by (simp add: on_authenticated_def on_unauthorized_def Let_def split: option.splits)

theorem handshake_flags_witness:
  "socket emptyState = Some \<lparr>authenticated = False\<rparr>
   \<and> on_authenticated emptyState =
        (None, emptyState\<lparr>socket := Some \<lparr>authenticated = True\<rparr>\<rparr>)
   \<and> socket (emptyState\<lparr>socket := Some \<lparr>authenticated = True\<rparr>\<rparr>)
        = Some \<lparr>authenticated = True\<rparr>
   \<and> fst (on_unauthorized (Error ''Invalid token'')
             (emptyState\<lparr>socket := Some \<lparr>authenticated = True\<rparr>\<rparr>))
        = Some (Error ''Invalid token'')
   \<and> toasts (snd (on_unauthorized (Error ''Invalid token'')
                (emptyState\<lparr>socket := Some \<lparr>authenticated = True\<rparr>\<rparr>)))
        = [ToastError ''Invalid token'']
   \<and> socket (snd (on_unauthorized (Error ''Invalid token'')
                (emptyState\<lparr>socket := Some \<lparr>authenticated = True\<rparr>\<rparr>)))
        = Some \<lparr>authenticated = False\<rparr>"
  using handshake_flags [of emptyState "\<lparr>authenticated = False\<rparr>" "Error ''Invalid token''"]
        handshake_flags [of "emptyState\<lparr>socket := Some \<lparr>authenticated = True\<rparr>\<rparr>"
                           "\<lparr>authenticated = True\<rparr>" "Error ''Invalid token''"]
  by (simp add: emptyState_def)

section \<open>The entities batch: other refetch failures are swallowed\<close>

text \<open>
  Claim C9. When a refetch fails with an error that is neither an AuthorizationError nor a
  NotFoundError, the pass through the loop body ends normally: for a document descriptor
  the event is unchanged (no collection descriptor is synthesized, the title check running
  against the cached record) and the state differs only by the logged request, so nothing
  is removed; for a collection descriptor the state differs only by the logged request;
  in both cases the loop goes on with the remaining descriptors. No error escapes the
  handler and no notice is shown to the user, whatever the batch.
\<close>

theorem entities_swallows_other_errors:
  assumes "\<not> isAuthorizationError err" and "\<not> isNotFoundError err"
  shows "(map_option document.updatedAt (get (documents st) (descriptor.id d)) \<noteq> descriptor.updatedAt d
          \<and> (get (documents st) (descriptor.id d) \<noteq> None \<or> fetchIfMissing event)
          \<and> documentInfo e (requests st) (descriptor.id d) = Inl err \<longrightarrow>
            processDocumentDescriptor e d (event, st) =
              Continue (event, st\<lparr>requests := requests st @ [FetchDocument (descriptor.id d)]\<rparr>)
            \<and> documentLoop e (d # ds) (event, st) =
                documentLoop e ds
                  (event, st\<lparr>requests := requests st @ [FetchDocument (descriptor.id d)]\<rparr>))
         \<and> (Option.bind (get (collections st) (descriptor.id d)) collection.updatedAt
               \<noteq> descriptor.updatedAt d
            \<and> (\<not> noDocuments (get (collections st) (descriptor.id d)) \<or> fetchMissing)
            \<and> get (collections st) (descriptor.id d) \<noteq> None
            \<and> collectionDocuments e (requests st) (descriptor.id d) = Inl err \<longrightarrow>
              processCollectionDescriptor e fetchMissing d st =
                Continue (st\<lparr>requests := requests st @ [FetchCollectionDocuments (descriptor.id d)]\<rparr>)
              \<and> collectionLoop e fetchMissing (d # ds) st =
                  collectionLoop e fetchMissing ds
                    (st\<lparr>requests := requests st @ [FetchCollectionDocuments (descriptor.id d)]\<rparr>))
         \<and> fst (on_entities e event st) = None
         \<and> toasts (snd (on_entities e event st)) = toasts st"
proof -
  have doc: "processDocumentDescriptor e d (event, st) =
              Continue (event, st\<lparr>requests := requests st @ [FetchDocument (descriptor.id d)]\<rparr>)"
    if "map_option document.updatedAt (get (documents st) (descriptor.id d)) \<noteq> descriptor.updatedAt d"
       "get (documents st) (descriptor.id d) \<noteq> None \<or> fetchIfMissing event"
       "documentInfo e (requests st) (descriptor.id d) = Inl err"
    using that assms
    by (auto simp add: processDocumentDescriptor_def documents_fetch_def Let_def titleChanged_same)
  have col: "processCollectionDescriptor e fetchMissing d st =
                Continue (st\<lparr>requests := requests st @ [FetchCollectionDocuments (descriptor.id d)]\<rparr>)"
    if "Option.bind (get (collections st) (descriptor.id d)) collection.updatedAt
               \<noteq> descriptor.updatedAt d"
       "\<not> noDocuments (get (collections st) (descriptor.id d)) \<or> fetchMissing"
       "get (collections st) (descriptor.id d) \<noteq> None"
       "collectionDocuments e (requests st) (descriptor.id d) = Inl err"
    using that assms
    by (auto simp add: processCollectionDescriptor_def fetchDocuments_def Let_def)
  have vis: "fst (on_entities e event st) = None \<and> toasts (snd (on_entities e event st)) = toasts st"
    using entities_toasts [of e event st] by (simp add: on_entities_def)
  show ?thesis
    using doc col vis by simp
qed

theorem entities_swallows_other_errors_witness:
  "processDocumentDescriptor exampleEnv \<lparr>descriptor.id = ''d3'', updatedAt = Some ''t9''\<rparr>
       (abortEvent, exampleState) =
     Continue (abortEvent, exampleState\<lparr>requests := [FetchDocument ''d3'']\<rparr>)
   \<and> get (documents exampleState) ''d3'' \<noteq> None
   \<and> processCollectionDescriptor exampleEnv True \<lparr>descriptor.id = ''c3'', updatedAt = Some ''t9''\<rparr>
       exampleState =
     Continue (exampleState\<lparr>requests := [FetchCollectionDocuments ''c3'']\<rparr>)
   \<and> get (collections exampleState) ''c3'' \<noteq> None"
proof -
  have r: "requests exampleState = []"
    by (simp add: exampleState_def emptyState_def)
  have n: "\<not> isAuthorizationError (Error ''Network timeout'')"
          "\<not> isNotFoundError (Error ''Network timeout'')"
    by simp_all
  have d: "get (documents exampleState) ''d3'' \<noteq> None"
    by (simp add: exampleState_def emptyState_def get_def)
  have c: "get (collections exampleState) ''c3'' = Some \<lparr> collection.updatedAt = Some ''t0'', documents = None \<rparr>"
    by (simp add: exampleState_def emptyState_def get_def)
  have du: "map_option document.updatedAt (get (documents exampleState) ''d3'') \<noteq> Some ''t9''"
    by (simp add: exampleState_def emptyState_def get_def)
  have e1: "documentInfo exampleEnv [] ''d3'' = Inl (Error ''Network timeout'')"
    by (simp add: exampleEnv_def)
  have e2: "collectionDocuments exampleEnv [] ''c3'' = Inl (Error ''Network timeout'')"
    by (simp add: exampleEnv_def)
  show ?thesis
    using entities_swallows_other_errors [OF n, where st = exampleState and e = exampleEnv
            and event = abortEvent and fetchMissing = True and ds = "[]"
            and d = "\<lparr>descriptor.id = ''d3'', updatedAt = Some ''t9''\<rparr>"]
          entities_swallows_other_errors [OF n, where st = exampleState and e = exampleEnv
            and event = abortEvent and fetchMissing = True and ds = "[]"
            and d = "\<lparr>descriptor.id = ''c3'', updatedAt = Some ''t9''\<rparr>"]
          r d c du e1 e2
    by simp
qed

section \<open>Resolving and unresolving a comment\<close>

text \<open>
  Claim C10. \<open>resolve\<close> raises a ValidationError exactly when the comment is already
  resolved (\<open>resolvedById\<close> is set) or is a reply (\<open>parentCommentId\<close> is set); otherwise it
  sets \<open>resolvedById\<close> and \<open>resolvedBy\<close> to the resolving user and saves. \<open>unresolve\<close>
  raises a ValidationError exactly when the comment is not resolved; otherwise it clears
  both fields and saves. "Set" is the truthiness test the code applies to the field.
\<close>

theorem comment_resolve_unresolve:
  "((\<exists>m. resolve save u c = Inl (ValidationError m))
      \<longleftrightarrow> (truthy (resolvedById c) \<or> truthy (parentCommentId c)))
   \<and> (\<not> truthy (resolvedById c) \<and> \<not> truthy (parentCommentId c) \<longrightarrow>
        resolve save u c =
          Inr (c\<lparr>resolvedById := Some (user.id u), resolvedBy := Some u\<rparr>,
               save (c\<lparr>resolvedById := Some (user.id u), resolvedBy := Some u\<rparr>)))
   \<and> ((\<exists>m. unresolve save c = Inl (ValidationError m)) \<longleftrightarrow> \<not> truthy (resolvedById c))
   \<and> (truthy (resolvedById c) \<longrightarrow>
        unresolve save c =
          Inr (c\<lparr>resolvedById := None, resolvedBy := None\<rparr>,
               save (c\<lparr>resolvedById := None, resolvedBy := None\<rparr>)))"
  by (simp add: resolve_def unresolve_def Let_def)

theorem comment_resolve_unresolve_witness:
  "\<not> truthy (resolvedById exampleComment)
   \<and> \<not> truthy (parentCommentId exampleComment)
   \<and> resolve (\<lambda>c. ()) exampleUser exampleComment =
        Inr (exampleComment\<lparr>resolvedById := Some ''u1'', resolvedBy := Some exampleUser\<rparr>, ())
   \<and> truthy (resolvedById
        (exampleComment\<lparr>resolvedById := Some ''u1'', resolvedBy := Some exampleUser\<rparr>))
   \<and> unresolve (\<lambda>c. ())
        (exampleComment\<lparr>resolvedById := Some ''u1'', resolvedBy := Some exampleUser\<rparr>)
      = Inr (exampleComment, ())"
  using comment_resolve_unresolve [of "\<lambda>c. ()" exampleUser exampleComment]
        comment_resolve_unresolve [of "\<lambda>c. ()" exampleUser
          "exampleComment\<lparr>resolvedById := Some ''u1'', resolvedBy := Some exampleUser\<rparr>"]
  by (simp add: truthy_def exampleComment_def exampleUser_def)

end
